theory Spec2Isabelle
  imports Main
begin

section \<open>Exceptions, external calls and the trace of effects\<close>

text \<open>
  The module \<^verbatim>\<open>shared/hsm_ux.py\<close> drives collaborators that live elsewhere in the
  firmware (the display, the keypad queue, the policy object, the story viewer, the
  random source).  A call to one of them is recorded as an \<open>event\<close> in a trace, in the
  order the calls are made; what the call answers (a value, or an exception) is an input
  of the model.

  An exception is its class, as far as the handlers of this module tell classes apart
  (\<^verbatim>\<open>except AbortInteraction\<close>, \<^verbatim>\<open>except QueueEmpty\<close>; \<^verbatim>\<open>except BaseException\<close> and a
  bare \<^verbatim>\<open>except\<close> take every class), and the text \<^verbatim>\<open>str(exc)\<close> gives.
\<close>

datatype exc_class =
  AbortInteraction | QueueEmpty | ValueError | IndexError | AssertionError | OtherException

datatype exn = Exc (cls: exc_class) (str_exc: string)

datatype event =
    Explain                                   \<comment> \<open>\<^verbatim>\<open>self.policy.explain(msg)\<close> on a fresh StringIO\<close>
  | ShowStory string "string option" "string option" bool
      \<comment> \<open>\<^verbatim>\<open>ux_show_story(msg, title, escape, strict_escape)\<close>\<close>
  | RandomUniform int                         \<comment> \<open>\<^verbatim>\<open>tcc.random.uniform(n)\<close>\<close>
  | PrintException exn                        \<comment> \<open>\<^verbatim>\<open>sys.print_exception(exc)\<close>\<close>
  | Cleanup                                   \<comment> \<open>\<^verbatim>\<open>UserAuthorizedAction.cleanup()\<close>\<close>
  | Done                                      \<comment> \<open>\<^verbatim>\<open>self.done()\<close>\<close>
  | Activate bool                             \<comment> \<open>\<^verbatim>\<open>self.policy.activate(new_file)\<close>\<close>
  | ResetUx                                   \<comment> \<open>\<^verbatim>\<open>the_ux.reset(hsm_ux_obj)\<close>\<close>
  | Print string                              \<comment> \<open>\<^verbatim>\<open>print(err)\<close>\<close>
  | AbortAndGoto                              \<comment> \<open>\<^verbatim>\<open>abort_and_goto(active_request)\<close>\<close>
  | Push                                      \<comment> \<open>\<^verbatim>\<open>the_ux.push(active_request)\<close>\<close>
  | InstallHooks                              \<comment> \<open>the three assignments to \<^verbatim>\<open>main.dis.*\<close>\<close>
  | DrawBackground                            \<comment> \<open>\<^verbatim>\<open>self.draw_background()\<close>\<close>
  | DisRestore                                \<comment> \<open>\<^verbatim>\<open>dis.dis.buffer[:] = screen_buf[:]\<close>\<close>
  | DisText "int option" int string           \<comment> \<open>\<^verbatim>\<open>dis.text(x, y, msg)\<close>\<close>
  | DisLine int int int int                   \<comment> \<open>\<^verbatim>\<open>dis.dis.line(x0, y0, x1, y1, True)\<close>\<close>
  | DisClearRect int int int int              \<comment> \<open>\<^verbatim>\<open>dis.clear_rect(x, y, w, h)\<close>\<close>
  | DisHLine int int int int                  \<comment> \<open>\<^verbatim>\<open>dis.dis.hline(x, y, w, colour)\<close>\<close>
  | DisShow                                   \<comment> \<open>\<^verbatim>\<open>dis.show()\<close>\<close>
  | GcCollect                                 \<comment> \<open>\<^verbatim>\<open>gc.collect()\<close>\<close>
  | Poll                                      \<comment> \<open>\<^verbatim>\<open>numpad.get_nowait()\<close>\<close>
  | LocalPinEntered string                    \<comment> \<open>\<^verbatim>\<open>main.hsm_active.local_pin_entered(digits)\<close>\<close>
  | SleepMs nat                               \<comment> \<open>\<^verbatim>\<open>await sleep_ms(n)\<close>\<close>
  | ReqInteract                               \<comment> \<open>\<^verbatim>\<open>await req.interact()\<close> is entered\<close>
  | ClearHsmActive                            \<comment> \<open>\<^verbatim>\<open>main.hsm_active = None\<close>\<close>
  | NumpadStart                               \<comment> \<open>\<^verbatim>\<open>numpad.start()\<close>\<close>
  | GotoTopMenu                               \<comment> \<open>\<^verbatim>\<open>goto_top_menu()\<close>\<close>

definition nl :: string where
  "nl = [CHR 0x0A]"

text \<open>Python's \<^verbatim>\<open>s[i]\<close> on a string: a negative index counts from the end, an index
  outside the string raises IndexError.\<close>

definition str_index :: "string \<Rightarrow> int \<Rightarrow> exn + char" where
  "str_index s i =
     (if 0 \<le> i \<and> i < int (length s) then Inr (s ! nat i)
      else if i < 0 \<and> 0 \<le> int (length s) + i then Inr (s ! nat (int (length s) + i))
      else Inl (Exc IndexError ''string index out of range''))"


section \<open>The approval flow: \<^verbatim>\<open>ApproveHSMPolicy\<close>\<close>

text \<open>The flags every \<^verbatim>\<open>UserAuthorizedAction\<close> carries, and the two fields
  \<^verbatim>\<open>ApproveHSMPolicy.__init__\<close> adds.\<close>

record UserAuthorizedAction =
  refused :: bool
  failed :: "string option"
  ux_done :: bool

record 'p ApproveHSMPolicy = UserAuthorizedAction +
  policy :: 'p
  new_file :: bool

text \<open>The base initialiser \<^verbatim>\<open>super().__init__()\<close> is in \<^verbatim>\<open>auth.py\<close>; the flags it sets are
  the argument \<open>base\<close>.\<close>

definition ApproveHSMPolicy_init ::
  "UserAuthorizedAction \<Rightarrow> 'p \<Rightarrow> bool \<Rightarrow> 'p ApproveHSMPolicy" where
  "ApproveHSMPolicy_init base p nf =
     \<lparr>refused = refused base, failed = failed base, ux_done = ux_done base,
      policy = p, new_file = nf\<rparr>"

definition title :: string where
  "title = ''Start HSM?''"

text \<open>What the collaborators answer during one run of \<^verbatim>\<open>ApproveHSMPolicy.interact\<close>:
  \<open>Inl\<close> is an exception raised by the call, \<open>Inr\<close> the value returned.\<close>

record approve_env =
  explain_out :: "exn + string"    \<comment> \<open>the text \<^verbatim>\<open>policy.explain\<close> writes into the StringIO\<close>
  story1 :: "exn + string"         \<comment> \<open>first \<^verbatim>\<open>ux_show_story\<close>: the key that left it\<close>
  rand :: "exn + int"              \<comment> \<open>\<^verbatim>\<open>tcc.random.uniform(5)\<close>\<close>
  story2 :: "exn + string"         \<comment> \<open>second \<^verbatim>\<open>ux_show_story\<close>\<close>

definition explain_msg :: "string \<Rightarrow> string" where
  "explain_msg text = text @ nl @ nl @ ''Press OK to enable HSM mode.''"

definition last_chance_msg :: "string \<Rightarrow> string" where
  "last_chance_msg confirm_char =
     ''Last chance. You are defining a new policy which '' @
     ''allows the Coldcard to sign specific transactions without any further user approval.'' @
     nl @ nl @ ''Press '' @ confirm_char @ '' to save policy and enable HSM mode.''"

text \<open>Lines 47--52: the first story; AbortInteraction is turned into the key \<^verbatim>\<open>'x'\<close>,
  any other exception goes on to the outer handler.\<close>

definition first_story :: "exn + string \<Rightarrow> exn + string" where
  "first_story r =
     (case r of
        Inr ch \<Rightarrow> Inr ch
      | Inl e \<Rightarrow> if cls e = AbortInteraction then Inr ''x'' else Inl e)"

text \<open>Lines 41--64, the body of the outer \<^verbatim>\<open>try\<close>: the exception that leaves it (if one
  does), the object as it is at that moment, and the calls made.\<close>

definition approve_try ::
  "'p ApproveHSMPolicy \<Rightarrow> approve_env \<Rightarrow> exn option \<times> 'p ApproveHSMPolicy \<times> event list" where
  "approve_try a env =
     (let a0 = a\<lparr>refused := True\<rparr> in
      case explain_out env of
        Inl e \<Rightarrow> (Some e, a0, [Explain])
      | Inr text \<Rightarrow>
          (let ev1 = [Explain, ShowStory (explain_msg text) (Some title) None False] in
           case first_story (story1 env) of
             Inl e \<Rightarrow> (Some e, a0, ev1)
           | Inr ch \<Rightarrow>
               (let a1 = a0\<lparr>refused := (ch \<noteq> ''y'')\<rparr> in
                if \<not> refused a1 \<and> new_file a1 then
                  (case rand env of
                     Inl e \<Rightarrow> (Some e, a1, ev1 @ [RandomUniform 5])
                   | Inr i \<Rightarrow>
                       (case str_index ''12346'' i of
                          Inl e \<Rightarrow> (Some e, a1, ev1 @ [RandomUniform 5])
                        | Inr c \<Rightarrow>
                            (let confirm_char = [c];
                                 ev2 = ev1 @ [RandomUniform 5,
                                        ShowStory (last_chance_msg confirm_char) (Some title)
                                          (Some (''x'' @ confirm_char)) True]
                             in case story2 env of
                                  Inl e \<Rightarrow> (Some e, a1, ev2)
                                | Inr ch2 \<Rightarrow>
                                    (None, a1\<lparr>refused := (ch2 \<noteq> confirm_char)\<rparr>, ev2))))
                else (None, a1, ev1))))"

text \<open>Lines 66--69, the handler \<^verbatim>\<open>except BaseException\<close>.\<close>

definition approve_handler ::
  "exn option \<times> 'p ApproveHSMPolicy \<times> event list \<Rightarrow> 'p ApproveHSMPolicy \<times> event list" where
  "approve_handler r =
     (case r of
        (None, a, ev) \<Rightarrow> (a, ev)
      | (Some e, a, ev) \<Rightarrow>
          (a\<lparr>failed := Some ''Exception'', refused := True\<rparr>, ev @ [PrintException e]))"

text \<open>\<^verbatim>\<open>ApproveHSMPolicy.interact\<close>, lines 37--83.  The calls after the \<^verbatim>\<open>try\<close> statement
  (\<^verbatim>\<open>cleanup\<close>, \<^verbatim>\<open>done\<close>, \<^verbatim>\<open>activate\<close>, \<^verbatim>\<open>the_ux.reset\<close>) are recorded as events.\<close>

definition ApproveHSMPolicy_interact ::
  "'p ApproveHSMPolicy \<Rightarrow> approve_env \<Rightarrow> 'p ApproveHSMPolicy \<times> event list" where
  "ApproveHSMPolicy_interact a env =
     (case approve_handler (approve_try a env) of
        (a3, ev) \<Rightarrow>
          (let a4 = a3\<lparr>ux_done := True\<rparr>;
               ev4 = ev @ [Cleanup]
           in if refused a4 then (a4, ev4 @ [Done])
              else (a4, ev4 @ [Activate (new_file a4), ResetUx])))"


section \<open>The loader: \<^verbatim>\<open>start_hsm_approval\<close>\<close>

text \<open>The two \<^verbatim>\<open>raise\<close> statements of the loader, and an exception of a collaborator that
  no handler of the loader takes.  Both raises build a \<^verbatim>\<open>ValueError\<close>; \<open>loader_exn\<close> is the
  exception object the caller sees.\<close>

datatype loader_error =
    NoExistingPolicy              \<comment> \<open>line 100: \<^verbatim>\<open>raise ValueError("No existing policy")\<close>\<close>
  | PolicyInvalid string          \<comment> \<open>line 117: \<^verbatim>\<open>raise ValueError(err)\<close>\<close>
  | Propagated exn

fun loader_exn :: "loader_error \<Rightarrow> exn" where
  "loader_exn NoExistingPolicy = Exc ValueError ''No existing policy''"
| "loader_exn (PolicyInvalid err) = Exc ValueError err"
| "loader_exn (Propagated e) = e"

text \<open>The collaborators of the loader.  \<open>loads\<close> is \<^verbatim>\<open>ujson.loads\<close>, \<open>policy_load\<close> is
  \<^verbatim>\<open>HSMPolicy()\<close> followed by \<^verbatim>\<open>policy.load(js_policy)\<close>, \<open>problem_file_line\<close> is the helper of
  \<^verbatim>\<open>utils\<close>, \<open>action_base\<close> the flags \<^verbatim>\<open>UserAuthorizedAction.__init__\<close> sets, and \<open>cleanup\<close>
  what \<^verbatim>\<open>UserAuthorizedAction.cleanup()\<close> leaves in the slot \<^verbatim>\<open>active_request\<close>.\<close>

record ('js, 'p) loader_deps =
  loads :: "string \<Rightarrow> exn + 'js"
  policy_load :: "'js \<Rightarrow> exn + 'p"
  problem_file_line :: "exn \<Rightarrow> string"
  action_base :: UserAuthorizedAction
  cleanup :: "'p ApproveHSMPolicy option \<Rightarrow> 'p ApproveHSMPolicy option"

record loader_env =
  sf_read :: "exn + string"       \<comment> \<open>\<^verbatim>\<open>SFFile(0, length=sf_len)\<close>, \<^verbatim>\<open>fd.read(sf_len).decode()\<close>\<close>
  file_read :: "exn + string"     \<comment> \<open>\<^verbatim>\<open>open(POLICY_FNAME, 'rt').read()\<close>\<close>
  fail_story :: "exn + string"    \<comment> \<open>the story \<^verbatim>\<open>"Cannot start HSM."\<close>\<close>

text \<open>Lines 91--102: where the text comes from, and \<open>is_new\<close>.\<close>

definition read_policy_text :: "loader_env \<Rightarrow> int \<Rightarrow> loader_error + (string \<times> bool)" where
  "read_policy_text env sf_len =
     (if sf_len \<noteq> 0 then
        (case sf_read env of
           Inl e \<Rightarrow> Inl (Propagated e)
         | Inr json \<Rightarrow> Inr (json, True))
      else
        (case file_read env of
           Inl e \<Rightarrow> Inl NoExistingPolicy
         | Inr json \<Rightarrow> Inr (json, False)))"

text \<open>Lines 106--113, the body of the outer \<^verbatim>\<open>try\<close>.\<close>

definition parse_policy :: "('js, 'p) loader_deps \<Rightarrow> string \<Rightarrow> exn + 'p" where
  "parse_policy D json =
     (case loads D json of
        Inl e \<Rightarrow> Inl (Exc ValueError ''JSON parse fail'')
      | Inr js_policy \<Rightarrow> policy_load D js_policy)"

definition invalid_msg :: "('js, 'p) loader_deps \<Rightarrow> exn \<Rightarrow> string" where
  "invalid_msg D exc = ''HSM Policy invalid: '' @ problem_file_line D exc @ '': '' @ str_exc exc"

text \<open>\<^verbatim>\<open>start_hsm_approval\<close>, lines 85--141.  The result is the exception raised or the value
  returned (\<open>None\<close> for the bare \<^verbatim>\<open>return\<close> of line 125), the slot
  \<^verbatim>\<open>UserAuthorizedAction.active_request\<close> afterwards, and the calls made.\<close>

definition start_hsm_approval ::
  "('js, 'p) loader_deps \<Rightarrow> loader_env \<Rightarrow> 'p ApproveHSMPolicy option \<Rightarrow> int \<Rightarrow> bool \<Rightarrow> bool \<Rightarrow>
     (loader_error + 'p ApproveHSMPolicy option) \<times> 'p ApproveHSMPolicy option \<times> event list" where
  "start_hsm_approval D env slot sf_len usb_mode startup_mode =
     (let slot0 = cleanup D slot in
      case read_policy_text env sf_len of
        Inl err \<Rightarrow> (Inl err, slot0, [Cleanup])
      | Inr (json, is_new) \<Rightarrow>
          (case parse_policy D json of
             Inl exc \<Rightarrow>
               (let err = invalid_msg D exc in
                if usb_mode then (Inl (PolicyInvalid err), slot0, [Cleanup])
                else
                  (let ev = [Cleanup, Print err,
                             ShowStory (''Cannot start HSM.'' @ nl @ nl @ err) None None False]
                   in case fail_story env of
                        Inl e \<Rightarrow> (Inl (Propagated e), slot0, ev)
                      | Inr ch \<Rightarrow> (Inr None, slot0, ev)))
           | Inr pol \<Rightarrow>
               (let ar = ApproveHSMPolicy_init (action_base D) pol is_new in
                if startup_mode then (Inr (Some ar), Some ar, [Cleanup])
                else if usb_mode then (Inr (Some ar), Some ar, [Cleanup, AbortAndGoto])
                else (Inr (Some ar), Some ar, [Cleanup, Push]))))"


section \<open>The locked interaction loop: \<^verbatim>\<open>hsmUxInteraction\<close>\<close>

text \<open>The heartbeat table of line 27, byte by byte.\<close>

definition cylon :: "nat list" where
  "cylon = [58, 65, 72, 78, 84, 90, 96, 101, 105, 109, 112, 114, 115, 116, 116, 115, 113,
            110, 107, 103, 98, 93, 87, 81, 75, 68, 61, 55, 48, 41, 35, 29, 23, 18, 13, 9, 6,
            3, 1, 0, 0, 1, 2, 4, 7, 11, 15, 20, 26, 32, 38, 44, 51]"

text \<open>The fields of the singleton \<^verbatim>\<open>hsm_ux_obj\<close>.  \<open>percent\<close> holds the progress value as the
  bar length \<^verbatim>\<open>int(128 * self.percent)\<close> that \<^verbatim>\<open>draw_busy\<close> draws from it.\<close>

record hsmUxInteraction =
  busy_text :: "string option"
  percent :: "int option"
  digits :: string
  phase :: nat
  test_restart :: bool

text \<open>Names this module imports and never defines: \<^verbatim>\<open>hsm.LOCAL_PIN_LENGTH\<close>,
  \<^verbatim>\<open>numpad.ABORT_KEY\<close>, \<^verbatim>\<open>ckcc.is_simulator()\<close>, \<^verbatim>\<open>utils.pretty_short_delay\<close>.\<close>

record hsm_consts =
  LOCAL_PIN_LENGTH :: nat
  ABORT_KEY :: string
  is_simulator :: bool
  pretty_short_delay :: "int \<Rightarrow> string"

text \<open>How the loop reaches the pending action: \<^verbatim>\<open>req.ux_done\<close> and \<^verbatim>\<open>req.interact()\<close> of
  whatever class the object in the slot has.  One call of \<open>req_interact\<close> gives the
  exception it raised (if any), the slot afterwards and the calls it made.\<close>

record ('r, 'e) pending =
  req_ux_done :: "'r \<Rightarrow> bool"
  req_interact :: "'r \<Rightarrow> 'e \<Rightarrow> exn option \<times> 'r option \<times> event list"

text \<open>What the collaborators answer during one iteration of the loop.  \<open>dis_raises k\<close> is
  the exception the \<open>k\<close>-th display call of this \<^verbatim>\<open>show()\<close> raises, if it raises;
  \<open>restart_set\<close> says that the simulator's test harness set \<^verbatim>\<open>test_restart\<close> while the loop
  was suspended in \<^verbatim>\<open>sleep_ms\<close>.\<close>

record 'e tick_env =
  time_left :: "int option"          \<comment> \<open>\<^verbatim>\<open>hsm_active.get_time_left()\<close>\<close>
  approvals_str :: string            \<comment> \<open>\<^verbatim>\<open>str(hsm_active.approvals)\<close>\<close>
  refusals_str :: string             \<comment> \<open>\<^verbatim>\<open>str(hsm_active.refusals)\<close>\<close>
  dis_raises :: "nat \<Rightarrow> exn option"
  poll :: "exn + string"             \<comment> \<open>\<^verbatim>\<open>numpad.get_nowait()\<close>\<close>
  pin_raises :: "exn option"         \<comment> \<open>\<^verbatim>\<open>local_pin_entered\<close>\<close>
  sleep_raises :: "exn option"       \<comment> \<open>\<^verbatim>\<open>sleep_ms(100)\<close>\<close>
  restart_set :: bool
  req_env :: 'e

text \<open>A run of display calls, from call number \<open>k\<close> on: it stops at the first call that
  raises.\<close>

fun perform :: "(nat \<Rightarrow> exn option) \<Rightarrow> nat \<Rightarrow> event list \<Rightarrow> exn option \<times> event list" where
  "perform f k [] = (None, [])"
| "perform f k (c # cs) =
     (case f k of
        Some e \<Rightarrow> (Some e, [c])
      | None \<Rightarrow> (case perform f (Suc k) cs of (r, tr) \<Rightarrow> (r, c # tr)))"

text \<open>Lines 203--209.\<close>

definition left_text :: "hsm_consts \<Rightarrow> int option \<Rightarrow> string" where
  "left_text C left =
     (case left of
        None \<Rightarrow> '' n/a''
      | Some t \<Rightarrow> if t = - 1 then '' --'' else pretty_short_delay C t)"

text \<open>Lines 201 and 212--217: the background and the three statistics.\<close>

definition stat_text :: "int \<Rightarrow> string \<Rightarrow> event" where
  "stat_text x val = DisText (Some (x - (7 * int (length val)) div 2)) (28 + 1) val"

definition stats_calls :: "hsm_consts \<Rightarrow> 'e tick_env \<Rightarrow> event list" where
  "stats_calls C env =
     [DisRestore,
      stat_text 14 (approvals_str env),
      stat_text 51 (refusals_str env),
      stat_text 96 (left_text C (time_left env))]"

text \<open>Lines 227--237: the feedback for the digits entered so far.\<close>

definition digits_msg :: "string \<Rightarrow> string" where
  "digits_msg d = (if length d < 6 then d @ replicate (6 - length d) (CHR ''#'') else d)"

definition digits_calls :: "string \<Rightarrow> event list" where
  "digits_calls d =
     (if d \<noteq> [] then [DisClearRect 80 0 (80 + 42) (0 + 14), DisText (Some 80) 0 (digits_msg d)]
      else [])"

text \<open>Lines 244--274 for the call \<^verbatim>\<open>self.draw_busy(None, None)\<close> of line 240.\<close>

definition busy_calls :: "hsmUxInteraction \<Rightarrow> event list" where
  "busy_calls s =
     (case busy_text s of
        None \<Rightarrow> []
      | Some t \<Rightarrow> [DisClearRect 0 48 128 (64 - 48), DisText None 48 t]) @
     (case percent s of
        None \<Rightarrow> []
      | Some x \<Rightarrow> [DisHLine 0 63 x 1, DisHLine (x + 1) 63 127 0]) @
     [DisShow]"

text \<open>\<^verbatim>\<open>hsmUxInteraction.show\<close>, lines 195--240: the exception that leaves it (if a display
  call raises), the object afterwards, and the display calls made.\<close>

definition hsm_show ::
  "hsm_consts \<Rightarrow> 'e tick_env \<Rightarrow> hsmUxInteraction \<Rightarrow> exn option \<times> hsmUxInteraction \<times> event list" where
  "hsm_show C env s =
     (case perform (dis_raises env) 0 (stats_calls C env) of
        (Some e, tr) \<Rightarrow> (Some e, s, tr)
      | (None, tr1) \<Rightarrow>
          (let s1 = s\<lparr>phase := (phase s + 1) mod length cylon\<rparr>;
               x = int (cylon ! phase s1);
               w = 12;
               rest = [DisLine x 63 (x + w - 1) 63] @ digits_calls (digits s1) @ busy_calls s1
           in case perform (dis_raises env) (length (stats_calls C env)) rest of
                (r, tr2) \<Rightarrow> (r, s1, tr1 @ tr2)))"

text \<open>Lines 308--320: what one polled key does.  The result is the exception raised by
  \<^verbatim>\<open>local_pin_entered\<close> (if it raises), the digit buffer afterwards and the calls made.\<close>

definition handle_key ::
  "hsm_consts \<Rightarrow> exn option \<Rightarrow> string \<Rightarrow> string \<Rightarrow> exn option \<times> string \<times> event list" where
  "handle_key C pin_exc d ch =
     (if ch = ''x'' then (None, [], [])
      else if ch = ''y'' then
        (if length d = LOCAL_PIN_LENGTH C then
           (case pin_exc of
              Some e \<Rightarrow> (Some e, d, [LocalPinEntered d])
            | None \<Rightarrow> (None, [], [LocalPinEntered d]))
         else (None, d, []))
      else if ch = ABORT_KEY C then (None, d, [])
      else if ch \<noteq> [] then
        (if length d < LOCAL_PIN_LENGTH C then (None, d @ [hd ch], [])
         else (None, d, []))
      else (None, d, []))"

text \<open>Lines 304--320, the body of the \<^verbatim>\<open>try\<close>: poll, then handle the key.\<close>

definition poll_and_handle ::
  "hsm_consts \<Rightarrow> 'e tick_env \<Rightarrow> string \<Rightarrow> exn option \<times> string \<times> event list" where
  "poll_and_handle C env d =
     (case poll env of
        Inl e \<Rightarrow> (Some e, d, [Poll])
      | Inr ch \<Rightarrow> (case handle_key C (pin_raises env) d ch of (r, d', ev) \<Rightarrow> (r, d', Poll # ev)))"

text \<open>Lines 333--338: the pending action gets one step; AbortInteraction is swallowed.\<close>

definition service_pending ::
  "('r, 'e) pending \<Rightarrow> 'e \<Rightarrow> 'r option \<Rightarrow> exn option \<times> 'r option \<times> event list" where
  "service_pending P renv slot =
     (case slot of
        None \<Rightarrow> (None, slot, [])
      | Some req \<Rightarrow>
          if \<not> req_ux_done P req then
            (case req_interact P req renv of
               (None, slot', ev) \<Rightarrow> (None, slot', ReqInteract # ev)
             | (Some e, slot', ev) \<Rightarrow>
                 if cls e = AbortInteraction then (None, slot', ReqInteract # ev)
                 else (Some e, slot', ReqInteract # ev))
          else (None, slot, []))"

text \<open>How one iteration, or the whole loop, ends.\<close>

datatype ending =
    Looping          \<comment> \<open>the iteration is over and the loop goes on\<close>
  | Exited           \<comment> \<open>the loop condition was false\<close>
  | Crashed exn      \<comment> \<open>an exception left the loop\<close>

text \<open>One iteration of the \<^verbatim>\<open>while\<close> loop, lines 301--338.\<close>

definition tick ::
  "hsm_consts \<Rightarrow> ('r, 'e) pending \<Rightarrow> 'e tick_env \<Rightarrow> hsmUxInteraction \<Rightarrow> 'r option \<Rightarrow>
     ending \<times> hsmUxInteraction \<times> 'r option \<times> event list" where
  "tick C P env s slot =
     (case hsm_show C env s of
        (Some e, s1, ev1) \<Rightarrow> (Crashed e, s1, slot, ev1)
      | (None, s1, ev1) \<Rightarrow>
          (case poll_and_handle C env (digits s1) of
             (None, d, ev2) \<Rightarrow> (Looping, s1\<lparr>digits := d\<rparr>, slot, ev1 @ GcCollect # ev2)
           | (Some e, d, ev2) \<Rightarrow>
               (let s2 = s1\<lparr>digits := d\<rparr>; ev = ev1 @ GcCollect # ev2 in
                if cls e = QueueEmpty then
                  (case sleep_raises env of
                     Some e' \<Rightarrow> (Crashed e', s2, slot, ev @ [SleepMs 100])
                   | None \<Rightarrow>
                       (let s3 = s2\<lparr>test_restart := (test_restart s2 \<or> restart_set env)\<rparr> in
                        case service_pending P (req_env env) slot of
                          (None, slot', ev3) \<Rightarrow> (Looping, s3, slot', ev @ SleepMs 100 # ev3)
                        | (Some e', slot', ev3) \<Rightarrow>
                            (Crashed e', s3, slot', ev @ SleepMs 100 # ev3)))
                else (Looping, s2, slot, ev @ [PrintException e]))))"

text \<open>The \<^verbatim>\<open>while not self.test_restart\<close> loop of line 300, run on the answers for its
  first iterations; \<open>Looping\<close> says that the loop is still running when they are used up.\<close>

fun run_loop ::
  "hsm_consts \<Rightarrow> ('r, 'e) pending \<Rightarrow> 'e tick_env list \<Rightarrow> hsmUxInteraction \<Rightarrow> 'r option \<Rightarrow>
     ending \<times> hsmUxInteraction \<times> 'r option \<times> event list" where
  "run_loop C P [] s slot = (if test_restart s then Exited else Looping, s, slot, [])"
| "run_loop C P (env # envs) s slot =
     (if test_restart s then (Exited, s, slot, [])
      else
        (case tick C P env s slot of
           (Looping, s', slot', ev) \<Rightarrow>
             (case run_loop C P envs s' slot' of
                (r, s'', slot'', ev') \<Rightarrow> (r, s'', slot'', ev @ ev'))
         | (r, s', slot', ev) \<Rightarrow> (r, s', slot', ev)))"

text \<open>\<^verbatim>\<open>hsmUxInteraction.interact\<close>, lines 283--349.  \<open>Exited\<close> is the \<^verbatim>\<open>return\<close> of line
  349.\<close>

definition hsmUxInteraction_interact ::
  "hsm_consts \<Rightarrow> ('r, 'e) pending \<Rightarrow> 'e tick_env list \<Rightarrow> hsmUxInteraction \<Rightarrow> 'r option \<Rightarrow>
     ending \<times> hsmUxInteraction \<times> 'r option \<times> event list" where
  "hsmUxInteraction_interact C P envs s slot =
     (let s0 = s\<lparr>digits := [], test_restart := False\<rparr>;
          ev0 = [InstallHooks, DrawBackground]
      in case run_loop C P envs s0 slot of
           (Exited, s1, slot1, ev) \<Rightarrow>
             if is_simulator C then
               (Exited, s1, slot1, ev0 @ ev @ [ClearHsmActive, NumpadStart, GotoTopMenu])
             else (Crashed (Exc AssertionError []), s1, slot1, ev0 @ ev)
         | (r, s1, slot1, ev) \<Rightarrow> (r, s1, slot1, ev0 @ ev))"

text \<open>The approval flow as a pending action of the loop: \<^verbatim>\<open>interact\<close> mutates the object the
  slot refers to, and its call of \<^verbatim>\<open>UserAuthorizedAction.cleanup()\<close> (line 72, after
  \<^verbatim>\<open>ux_done\<close> is set) acts on the slot; \<open>cl\<close> is what that call leaves there.\<close>

definition approve_pending ::
  "('p ApproveHSMPolicy option \<Rightarrow> 'p ApproveHSMPolicy option) \<Rightarrow>
     ('p ApproveHSMPolicy, approve_env) pending" where
  "approve_pending cl =
     \<lparr>req_ux_done = ux_done,
      req_interact = (\<lambda>a env. case ApproveHSMPolicy_interact a env of
                                (a', ev) \<Rightarrow> (None, cl (Some a'), ev))\<rparr>"


section \<open>Sorting the calls of a trace\<close>

text \<open>\<open>loop_call\<close>: the calls the loop body of lines 301--338 makes itself; \<open>is_display\<close>: the
  display calls among them; \<open>is_line\<close>: the heartbeat line; \<open>idle\<close>: the slot holds no action
  that still wants a step; \<open>quiet_pending P x\<close>: no step of a pending action makes the call
  \<open>x\<close>.\<close>

fun loop_call :: "event \<Rightarrow> bool" where
  "loop_call DisRestore = True"
| "loop_call (DisText x y m) = True"
| "loop_call (DisLine a b c d) = True"
| "loop_call (DisClearRect a b c d) = True"
| "loop_call (DisHLine a b c d) = True"
| "loop_call DisShow = True"
| "loop_call GcCollect = True"
| "loop_call Poll = True"
| "loop_call (LocalPinEntered d) = True"
| "loop_call (SleepMs n) = True"
| "loop_call (PrintException e) = True"
| "loop_call ReqInteract = True"
| "loop_call _ = False"

fun is_line :: "event \<Rightarrow> bool" where
  "is_line (DisLine a b c d) = True"
| "is_line _ = False"

definition no_line :: "event list \<Rightarrow> event list" where
  "no_line ev = filter (\<lambda>e. \<not> is_line e) ev"

definition idle :: "('r, 'e) pending \<Rightarrow> 'r option \<Rightarrow> bool" where
  "idle P slot = (case slot of None \<Rightarrow> True | Some req \<Rightarrow> req_ux_done P req)"

definition quiet_pending :: "('r, 'e) pending \<Rightarrow> event \<Rightarrow> bool" where
  "quiet_pending P x = (\<forall>req renv. x \<notin> set (snd (snd (req_interact P req renv))))"

fun is_display :: "event \<Rightarrow> bool" where
  "is_display DisRestore = True"
| "is_display (DisText x y m) = True"
| "is_display (DisLine a b c d) = True"
| "is_display (DisClearRect a b c d) = True"
| "is_display (DisHLine a b c d) = True"
| "is_display DisShow = True"
| "is_display _ = False"


section \<open>Sample inputs\<close>

definition ex_new :: "string ApproveHSMPolicy" where
  "ex_new = \<lparr>refused = False, failed = None, ux_done = False, policy = ''rules'', new_file = True\<rparr>"

definition ex_env6 :: approve_env where
  "ex_env6 = \<lparr>explain_out = Inr ''Rules'', story1 = Inr ''y'', rand = Inr 4, story2 = Inr ''6''\<rparr>"

definition ex_env_abort2 :: approve_env where
  "ex_env_abort2 = \<lparr>explain_out = Inr ''Rules'', story1 = Inr ''y'', rand = Inr 0,
                     story2 = Inl (Exc AbortInteraction [])\<rparr>"

definition ex_env_reject :: approve_env where
  "ex_env_reject = \<lparr>explain_out = Inr ''Rules'', story1 = Inr ''x'', rand = Inr 0,
                     story2 = Inr ''1''\<rparr>"

definition ex_consts :: hsm_consts where
  "ex_consts = \<lparr>LOCAL_PIN_LENGTH = 6, ABORT_KEY = [CHR 0x03], is_simulator = False,
                 pretty_short_delay = (\<lambda>t. ''1m'')\<rparr>"

definition ex_pending :: "(string ApproveHSMPolicy, approve_env) pending" where
  "ex_pending = approve_pending (\<lambda>slot. None)"

definition ex_ui :: hsmUxInteraction where
  "ex_ui = \<lparr>busy_text = None, percent = None, digits = [], phase = 0, test_restart = False\<rparr>"

definition ex_tick :: "exn + string \<Rightarrow> approve_env tick_env" where
  "ex_tick p = \<lparr>time_left = None, approvals_str = ''0'', refusals_str = ''0'',
                 dis_raises = (\<lambda>k. None), poll = p, pin_raises = None, sleep_raises = None,
                 restart_set = False, req_env = ex_env6\<rparr>"

definition ex_tick_draw_fail :: "approve_env tick_env" where
  "ex_tick_draw_fail =
     (ex_tick (Inr ''1''))\<lparr>dis_raises :=
        (\<lambda>k. if k = 1 then Some (Exc OtherException ''display'') else None)\<rparr>"

definition ex_sim :: hsm_consts where
  "ex_sim = ex_consts\<lparr>is_simulator := True\<rparr>"

definition ex_tick_restart :: "approve_env tick_env" where
  "ex_tick_restart = (ex_tick (Inl (Exc QueueEmpty [])))\<lparr>restart_set := True\<rparr>"

definition ex_old :: "string ApproveHSMPolicy" where
  "ex_old = ex_new\<lparr>new_file := False\<rparr>"

definition ex_tick_poll_fail :: "approve_env tick_env" where
  "ex_tick_poll_fail = ex_tick (Inl (Exc OtherException ''keypad''))"

definition ex_deps :: "(string, string) loader_deps" where
  "ex_deps = \<lparr>loads = (\<lambda>t. if t = ''{}'' then Inr ''rules'' else Inl (Exc ValueError ''syntax error in JSON'')),
              policy_load = (\<lambda>js. Inr js),
              problem_file_line = (\<lambda>e. ''hsm_ux.py:109''),
              action_base = \<lparr>refused = False, failed = None, ux_done = False\<rparr>,
              cleanup = (\<lambda>slot. None)\<rparr>"

definition ex_tick_sleep_fail :: "approve_env tick_env" where
  "ex_tick_sleep_fail =
     (ex_tick (Inl (Exc QueueEmpty [])))\<lparr>sleep_raises := Some (Exc OtherException ''sleep'')\<rparr>"

definition ex_pending_raise :: "(nat, approve_env) pending" where
  "ex_pending_raise =
     \<lparr>req_ux_done = (\<lambda>req. False),
      req_interact = (\<lambda>req renv. (Some (Exc OtherException ''step''), Some req, []))\<rparr>"

definition ex_loader_env :: "string \<Rightarrow> loader_env" where
  "ex_loader_env t = \<lparr>sf_read = Inr t, file_read = Inl (Exc OtherException ''ENOENT''),
                       fail_story = Inr ''y''\<rparr>"


section \<open>Properties of the approval flow\<close>


lemma str_index_12346:
  "str_index ''12346'' i = Inr c \<Longrightarrow> c \<in> {CHR ''1'', CHR ''2'', CHR ''3'', CHR ''4'', CHR ''6''}"
proof -
  assume h: "str_index ''12346'' i = Inr c"
  have "i \<in> {-5, -4, -3, -2, -1, 0, 1, 2, 3, 4}"
    using h by (auto simp: str_index_def split: if_splits)
  then show ?thesis using h
    by (auto simp: str_index_def)
qed

lemma approve_try_cases:
  "approve_try a env = (r, a', ev) \<Longrightarrow>
     (r = None \<and> \<not> refused a') =
       ((\<exists>text. explain_out env = Inr text) \<and> story1 env = Inr ''y'' \<and>
        (new_file a \<longrightarrow> (\<exists>i c. rand env = Inr i \<and> str_index ''12346'' i = Inr c \<and> story2 env = Inr [c])))"
  by (auto simp: approve_try_def first_story_def Let_def split: sum.splits if_splits)

lemma approve_try_keeps:
  "approve_try a env = (r, a', ev) \<Longrightarrow> new_file a' = new_file a \<and> policy a' = policy a \<and> ux_done a' = ux_done a \<and> failed a' = failed a"
  by (auto simp: approve_try_def first_story_def Let_def split: sum.splits if_splits)

lemma approve_try_quiet:
  "approve_try a env = (r, a', ev) \<Longrightarrow> Activate b \<notin> set ev \<and> Done \<notin> set ev \<and> Cleanup \<notin> set ev \<and> ResetUx \<notin> set ev \<and> ReqInteract \<notin> set ev"
  by (auto simp: approve_try_def first_story_def Let_def split: sum.splits if_splits)

lemma interact_unfold:
  "approve_try a env = (r, a1, ev) \<Longrightarrow>
   ApproveHSMPolicy_interact a env =
     (if r = None \<and> \<not> refused a1
      then (a1\<lparr>ux_done := True\<rparr>, ev @ [Cleanup, Activate (new_file a), ResetUx])
      else (case r of None \<Rightarrow> (a1\<lparr>ux_done := True\<rparr>, ev @ [Cleanup, Done])
             | Some e \<Rightarrow> (a1\<lparr>failed := Some ''Exception'', refused := True, ux_done := True\<rparr>,
                            ev @ [PrintException e, Cleanup, Done])))"
  using approve_try_keeps[of a env r a1 ev]
  by (cases r) (simp_all add: ApproveHSMPolicy_interact_def approve_handler_def Let_def)

lemma interact_ux_done: "ux_done (fst (ApproveHSMPolicy_interact a env))"
proof -
  obtain r a1 ev where t: "approve_try a env = (r, a1, ev)" by (cases "approve_try a env")
  show ?thesis by (cases r) (simp_all add: interact_unfold[OF t])
qed

lemma interact_refused_iff:
  "(\<not> refused (fst (ApproveHSMPolicy_interact a env))) =
       ((\<exists>text. explain_out env = Inr text) \<and> story1 env = Inr ''y'' \<and>
        (new_file a \<longrightarrow> (\<exists>i c. rand env = Inr i \<and> str_index ''12346'' i = Inr c \<and> story2 env = Inr [c])))"
proof -
  obtain r a1 ev where t: "approve_try a env = (r, a1, ev)" by (cases "approve_try a env")
  have "(\<not> refused (fst (ApproveHSMPolicy_interact a env))) = (r = None \<and> \<not> refused a1)"
    by (cases r) (simp_all add: interact_unfold[OF t])
  then show ?thesis using approve_try_cases[OF t] by simp
qed

lemma interact_activate_iff:
  "(Activate b \<in> set (snd (ApproveHSMPolicy_interact a env))) =
     (\<not> refused (fst (ApproveHSMPolicy_interact a env)) \<and> b = new_file a)"
proof -
  obtain r a1 ev where t: "approve_try a env = (r, a1, ev)" by (cases "approve_try a env")
  show ?thesis using approve_try_quiet[OF t, of b]
    by (cases r) (auto simp add: interact_unfold[OF t])
qed

lemma interact_no_req: "ReqInteract \<notin> set (snd (ApproveHSMPolicy_interact a env))"
proof -
  obtain r a1 ev where t: "approve_try a env = (r, a1, ev)" by (cases "approve_try a env")
  show ?thesis using approve_try_quiet[OF t]
    by (cases r) (auto simp add: interact_unfold[OF t])
qed

lemma interact_refused_done:
  "refused (fst (ApproveHSMPolicy_interact a env)) \<Longrightarrow>
     \<exists>ev. snd (ApproveHSMPolicy_interact a env) = ev @ [Cleanup, Done]"
proof -
  assume h: "refused (fst (ApproveHSMPolicy_interact a env))"
  obtain r a1 ev where t: "approve_try a env = (r, a1, ev)" by (cases "approve_try a env")
  show ?thesis using h
    by (cases r) (auto simp add: interact_unfold[OF t] split: if_splits)
qed

lemma interact_failed:
  "approve_try a env = (Some e, a1, ev) \<Longrightarrow>
     failed (fst (ApproveHSMPolicy_interact a env)) = Some ''Exception'' \<and>
     refused (fst (ApproveHSMPolicy_interact a env)) \<and>
     PrintException e \<in> set (snd (ApproveHSMPolicy_interact a env))"
  by (simp add: interact_unfold)

lemma try_raises_iff:
  "(\<exists>e. fst (approve_try a env) = Some e) =
     ((\<exists>e. explain_out env = Inl e) \<or>
      (\<exists>e. story1 env = Inl e \<and> cls e \<noteq> AbortInteraction) \<or>
      ((\<exists>text. explain_out env = Inr text) \<and> story1 env = Inr ''y'' \<and> new_file a \<and>
        ((\<exists>e. rand env = Inl e) \<or>
         (\<exists>i e. rand env = Inr i \<and> str_index ''12346'' i = Inl e) \<or>
         (\<exists>i c e. rand env = Inr i \<and> str_index ''12346'' i = Inr c \<and> story2 env = Inl e))))"
  by (auto simp: approve_try_def first_story_def Let_def split: sum.splits if_splits)


lemma second_story_shape:
  "ShowStory m t (Some esc) strict \<in> set (snd (ApproveHSMPolicy_interact a env)) \<Longrightarrow>
     \<exists>i c. rand env = Inr i \<and> str_index ''12346'' i = Inr c \<and> esc = [CHR ''x'', c] \<and>
           m = last_chance_msg [c] \<and> strict \<and>
           (\<not> refused (fst (ApproveHSMPolicy_interact a env))) = (story2 env = Inr [c])"
  by (auto simp: ApproveHSMPolicy_interact_def approve_handler_def approve_try_def
        first_story_def Let_def split: sum.splits if_splits)

lemma str_index_range:
  "{c. \<exists>i. str_index ''12346'' i = Inr c} = {CHR ''1'', CHR ''2'', CHR ''3'', CHR ''4'', CHR ''6''}"
proof
  show "{c. \<exists>i. str_index ''12346'' i = Inr c} \<subseteq> {CHR ''1'', CHR ''2'', CHR ''3'', CHR ''4'', CHR ''6''}"
    using str_index_12346 by blast
next
  have "str_index ''12346'' 0 = Inr (CHR ''1'')" "str_index ''12346'' 1 = Inr (CHR ''2'')"
    "str_index ''12346'' 2 = Inr (CHR ''3'')" "str_index ''12346'' 3 = Inr (CHR ''4'')"
    "str_index ''12346'' 4 = Inr (CHR ''6'')"
    by (simp_all add: str_index_def)
  then show "{CHR ''1'', CHR ''2'', CHR ''3'', CHR ''4'', CHR ''6''} \<subseteq> {c. \<exists>i. str_index ''12346'' i = Inr c}"
    by blast
qed

text \<open>
  Claim C10.  Whenever the second confirmation story is shown, the token it asks for is
  one of the five characters \<^verbatim>\<open>1 2 3 4 6\<close>: the story's escape keys are \<^verbatim>\<open>x\<close> and that
  token, the message names it, and the flow ends approved exactly when that token is the
  key entered.  The characters the index \<^verbatim>\<open>'12346'[i]\<close> can give are exactly these five, so
  \<^verbatim>\<open>0 5 7 8 9\<close> are never the token.
\<close>

theorem confirm_token_alphabet:
  "(ShowStory m t (Some esc) strict \<in> set (snd (ApproveHSMPolicy_interact a env)) \<longrightarrow>
      (\<exists>c \<in> {CHR ''1'', CHR ''2'', CHR ''3'', CHR ''4'', CHR ''6''}.
         esc = [CHR ''x'', c] \<and> m = last_chance_msg [c] \<and>
         ((\<not> refused (fst (ApproveHSMPolicy_interact a env))) = (story2 env = Inr [c])))) \<and>
   {c. \<exists>i. str_index ''12346'' i = Inr c} =
      {CHR ''1'', CHR ''2'', CHR ''3'', CHR ''4'', CHR ''6''} \<and>
   (\<forall>c \<in> {CHR ''0'', CHR ''5'', CHR ''7'', CHR ''8'', CHR ''9''}. \<forall>i. str_index ''12346'' i \<noteq> Inr c)"
proof (intro conjI impI)
  assume "ShowStory m t (Some esc) strict \<in> set (snd (ApproveHSMPolicy_interact a env))"
  from second_story_shape[OF this] str_index_12346
  show "\<exists>c \<in> {CHR ''1'', CHR ''2'', CHR ''3'', CHR ''4'', CHR ''6''}.
         esc = [CHR ''x'', c] \<and> m = last_chance_msg [c] \<and>
         ((\<not> refused (fst (ApproveHSMPolicy_interact a env))) = (story2 env = Inr [c]))"
    by blast
next
  show "{c. \<exists>i. str_index ''12346'' i = Inr c} =
      {CHR ''1'', CHR ''2'', CHR ''3'', CHR ''4'', CHR ''6''}"
    by (rule str_index_range)
next
  show "\<forall>c \<in> {CHR ''0'', CHR ''5'', CHR ''7'', CHR ''8'', CHR ''9''}. \<forall>i. str_index ''12346'' i \<noteq> Inr c"
    using str_index_12346 by fastforce
qed

text \<open>A run that reaches the second story: the random index 4 selects \<^verbatim>\<open>6\<close>.\<close>

theorem confirm_token_alphabet_witness:
  "ShowStory (last_chance_msg ''6'') (Some title) (Some ''x6'') True
      \<in> set (snd (ApproveHSMPolicy_interact ex_new ex_env6)) \<and>
   (\<exists>c \<in> {CHR ''1'', CHR ''2'', CHR ''3'', CHR ''4'', CHR ''6''}.
       ''x6'' = [CHR ''x'', c] \<and>
       ((\<not> refused (fst (ApproveHSMPolicy_interact ex_new ex_env6))) = (story2 ex_env6 = Inr [c]))) \<and>
   \<not> refused (fst (ApproveHSMPolicy_interact ex_new ex_env6))"
proof -
  have h: "ShowStory (last_chance_msg ''6'') (Some title) (Some ''x6'') True
      \<in> set (snd (ApproveHSMPolicy_interact ex_new ex_env6))"
    by (simp add: ApproveHSMPolicy_interact_def approve_handler_def approve_try_def
        first_story_def str_index_def ex_new_def ex_env6_def Let_def)
  have r: "\<not> refused (fst (ApproveHSMPolicy_interact ex_new ex_env6))"
    by (simp add: ApproveHSMPolicy_interact_def approve_handler_def approve_try_def
        first_story_def str_index_def ex_new_def ex_env6_def Let_def)
  from confirm_token_alphabet[of "last_chance_msg ''6''" "Some title" "''x6''" True ex_new ex_env6] h r
  show ?thesis by blast
qed

lemma new_accept_trace:
  assumes "new_file a" "explain_out env = Inr text" "story1 env = Inr ''y''"
  shows "\<exists>rest. snd (ApproveHSMPolicy_interact a env) =
           [Explain, ShowStory (explain_msg text) (Some title) None False, RandomUniform 5] @ rest \<and>
           (\<forall>n. RandomUniform n \<notin> set rest)"
  using assms
  by (auto simp: ApproveHSMPolicy_interact_def approve_handler_def approve_try_def
        first_story_def Let_def split: sum.splits if_splits)

text \<open>
  Claim C1.  For a new policy whose explanation was shown and accepted with \<^verbatim>\<open>y\<close>:
  the random source is asked exactly once, for one of 5 values; when it selects the token
  \<open>c\<close> (one of \<^verbatim>\<open>12346\<close>), the flow ends approved exactly when the second story returns
  that token; an approved run ends with \<^verbatim>\<open>cleanup\<close>, \<^verbatim>\<open>activate(True)\<close>, \<^verbatim>\<open>the_ux.reset\<close>;
  every other run (another key, the empty key, an interruption or any other exception,
  no token selected) ends refused, with \<^verbatim>\<open>cleanup\<close> and \<^verbatim>\<open>done\<close> and no call of
  \<^verbatim>\<open>activate\<close>.
\<close>

theorem new_policy_second_confirmation:
  assumes "new_file a" and "explain_out env = Inr text" and "story1 env = Inr ''y''"
  shows "count_list (snd (ApproveHSMPolicy_interact a env)) (RandomUniform 5) = 1 \<and>
         (\<forall>n. RandomUniform n \<in> set (snd (ApproveHSMPolicy_interact a env)) \<longrightarrow> n = 5) \<and>
         (\<forall>i c. rand env = Inr i \<and> str_index ''12346'' i = Inr c \<longrightarrow>
            c \<in> set ''12346'' \<and>
            (\<not> refused (fst (ApproveHSMPolicy_interact a env))) = (story2 env = Inr [c])) \<and>
         (\<not> refused (fst (ApproveHSMPolicy_interact a env)) \<longrightarrow>
            (\<exists>i c. rand env = Inr i \<and> str_index ''12346'' i = Inr c) \<and>
            (\<exists>ev. snd (ApproveHSMPolicy_interact a env) = ev @ [Cleanup, Activate True, ResetUx])) \<and>
         (refused (fst (ApproveHSMPolicy_interact a env)) \<longrightarrow>
            (\<forall>b. Activate b \<notin> set (snd (ApproveHSMPolicy_interact a env))) \<and>
            (\<exists>ev. snd (ApproveHSMPolicy_interact a env) = ev @ [Cleanup, Done])) \<and>
         ux_done (fst (ApproveHSMPolicy_interact a env))"
proof (intro conjI)
  from new_accept_trace[OF assms] obtain rest where
    tr: "snd (ApproveHSMPolicy_interact a env) =
           [Explain, ShowStory (explain_msg text) (Some title) None False, RandomUniform 5] @ rest"
    and rest: "\<forall>n. RandomUniform n \<notin> set rest" by blast
  from rest have "count_list rest (RandomUniform 5) = 0" by (simp add: count_list_0_iff)
  then show "count_list (snd (ApproveHSMPolicy_interact a env)) (RandomUniform 5) = 1"
    by (simp add: tr)
  show "\<forall>n. RandomUniform n \<in> set (snd (ApproveHSMPolicy_interact a env)) \<longrightarrow> n = 5"
    using rest by (auto simp: tr)
next
  show "\<forall>i c. rand env = Inr i \<and> str_index ''12346'' i = Inr c \<longrightarrow>
            c \<in> set ''12346'' \<and>
            (\<not> refused (fst (ApproveHSMPolicy_interact a env))) = (story2 env = Inr [c])"
    using assms str_index_12346 by (auto simp: interact_refused_iff)
next
  show "\<not> refused (fst (ApproveHSMPolicy_interact a env)) \<longrightarrow>
            (\<exists>i c. rand env = Inr i \<and> str_index ''12346'' i = Inr c) \<and>
            (\<exists>ev. snd (ApproveHSMPolicy_interact a env) = ev @ [Cleanup, Activate True, ResetUx])"
  proof
    assume ok: "\<not> refused (fst (ApproveHSMPolicy_interact a env))"
    obtain r a1 ev where t: "approve_try a env = (r, a1, ev)" by (cases "approve_try a env")
    have "snd (ApproveHSMPolicy_interact a env) = ev @ [Cleanup, Activate True, ResetUx]"
      using ok assms(1) by (cases r) (auto simp: interact_unfold[OF t] split: if_splits)
    moreover have "\<exists>i c. rand env = Inr i \<and> str_index ''12346'' i = Inr c"
      using ok assms(1) interact_refused_iff[of a env] by blast
    ultimately show "(\<exists>i c. rand env = Inr i \<and> str_index ''12346'' i = Inr c) \<and>
            (\<exists>ev. snd (ApproveHSMPolicy_interact a env) = ev @ [Cleanup, Activate True, ResetUx])"
      by blast
  qed
next
  show "refused (fst (ApproveHSMPolicy_interact a env)) \<longrightarrow>
            (\<forall>b. Activate b \<notin> set (snd (ApproveHSMPolicy_interact a env))) \<and>
            (\<exists>ev. snd (ApproveHSMPolicy_interact a env) = ev @ [Cleanup, Done])"
    using interact_refused_done[of a env] by (simp add: interact_activate_iff)
next
  show "ux_done (fst (ApproveHSMPolicy_interact a env))" by (rule interact_ux_done)
qed

text \<open>Two runs on a new policy: the token \<^verbatim>\<open>6\<close> entered, and the second story
  interrupted.\<close>

theorem new_policy_second_confirmation_witness:
  "new_file ex_new \<and> explain_out ex_env6 = Inr ''Rules'' \<and> story1 ex_env6 = Inr ''y'' \<and>
   rand ex_env6 = Inr 4 \<and> str_index ''12346'' 4 = Inr (CHR ''6'') \<and> story2 ex_env6 = Inr ''6'' \<and>
   \<not> refused (fst (ApproveHSMPolicy_interact ex_new ex_env6)) \<and>
   refused (fst (ApproveHSMPolicy_interact ex_new ex_env_abort2)) \<and>
   (\<forall>b. Activate b \<notin> set (snd (ApproveHSMPolicy_interact ex_new ex_env_abort2)))"
proof -
  have h: "new_file ex_new" "explain_out ex_env6 = Inr ''Rules''" "story1 ex_env6 = Inr ''y''"
      "explain_out ex_env_abort2 = Inr ''Rules''" "story1 ex_env_abort2 = Inr ''y''"
    by (simp_all add: ex_new_def ex_env6_def ex_env_abort2_def)
  have k: "rand ex_env6 = Inr 4" "str_index ''12346'' 4 = Inr (CHR ''6'')" "story2 ex_env6 = Inr ''6''"
      "rand ex_env_abort2 = Inr 0" "str_index ''12346'' 0 = Inr (CHR ''1'')"
      "story2 ex_env_abort2 \<noteq> Inr ''1''"
    by (simp_all add: ex_env6_def ex_env_abort2_def str_index_def)
  from new_policy_second_confirmation[OF h(1) h(2) h(3)] k
  have 1: "\<not> refused (fst (ApproveHSMPolicy_interact ex_new ex_env6))" by blast
  from new_policy_second_confirmation[OF h(1) h(4) h(5)] k
  have 2: "refused (fst (ApproveHSMPolicy_interact ex_new ex_env_abort2))" by blast
  with new_policy_second_confirmation[OF h(1) h(4) h(5)]
  have 3: "\<forall>b. Activate b \<notin> set (snd (ApproveHSMPolicy_interact ex_new ex_env_abort2))" by blast
  from h k 1 2 3 show ?thesis by blast
qed

text \<open>
  Claim C2.  For every policy and every starting state of the action: if the first story
  returns a key other than \<^verbatim>\<open>y\<close>, or is left by an exception (AbortInteraction included),
  or any exception leaves the body of the \<^verbatim>\<open>try\<close>, then the flow ends with
  \<^verbatim>\<open>refused = True\<close> and \<^verbatim>\<open>ux_done = True\<close>, calls \<^verbatim>\<open>cleanup\<close> and \<^verbatim>\<open>done\<close> last and never calls
  \<^verbatim>\<open>activate\<close>.  An exception that leaves the \<^verbatim>\<open>try\<close> body is recorded as
  \<^verbatim>\<open>failed = "Exception"\<close>; the last part lists the answers of the collaborators for which
  that happens.
\<close>

theorem approval_fails_closed:
  "(((\<exists>ch. story1 env = Inr ch \<and> ch \<noteq> ''y'') \<or> (\<exists>e. story1 env = Inl e) \<or>
     (\<exists>e. fst (approve_try a env) = Some e)) \<longrightarrow>
      refused (fst (ApproveHSMPolicy_interact a env)) \<and>
      ux_done (fst (ApproveHSMPolicy_interact a env)) \<and>
      (\<forall>b. Activate b \<notin> set (snd (ApproveHSMPolicy_interact a env))) \<and>
      (\<exists>ev. snd (ApproveHSMPolicy_interact a env) = ev @ [Cleanup, Done])) \<and>
   ((\<exists>e. fst (approve_try a env) = Some e) \<longrightarrow>
      failed (fst (ApproveHSMPolicy_interact a env)) = Some ''Exception'') \<and>
   ((\<exists>e. fst (approve_try a env) = Some e) =
     ((\<exists>e. explain_out env = Inl e) \<or>
      (\<exists>e. story1 env = Inl e \<and> cls e \<noteq> AbortInteraction) \<or>
      ((\<exists>text. explain_out env = Inr text) \<and> story1 env = Inr ''y'' \<and> new_file a \<and>
        ((\<exists>e. rand env = Inl e) \<or>
         (\<exists>i e. rand env = Inr i \<and> str_index ''12346'' i = Inl e) \<or>
         (\<exists>i c e. rand env = Inr i \<and> str_index ''12346'' i = Inr c \<and> story2 env = Inl e)))))"
proof (intro conjI impI)
  assume h: "(\<exists>ch. story1 env = Inr ch \<and> ch \<noteq> ''y'') \<or> (\<exists>e. story1 env = Inl e) \<or>
     (\<exists>e. fst (approve_try a env) = Some e)"
  have r: "refused (fst (ApproveHSMPolicy_interact a env))"
  proof (cases "\<exists>e. fst (approve_try a env) = Some e")
    case True
    then obtain e a1 ev where "approve_try a env = (Some e, a1, ev)"
      by (cases "approve_try a env") auto
    then show ?thesis using interact_failed by blast
  next
    case False
    with h have "story1 env \<noteq> Inr ''y''" by auto
    then show ?thesis using interact_refused_iff[of a env] by blast
  qed
  then show "refused (fst (ApproveHSMPolicy_interact a env))" .
  show "ux_done (fst (ApproveHSMPolicy_interact a env))" by (rule interact_ux_done)
  show "\<forall>b. Activate b \<notin> set (snd (ApproveHSMPolicy_interact a env))"
    using r by (simp add: interact_activate_iff)
  show "\<exists>ev. snd (ApproveHSMPolicy_interact a env) = ev @ [Cleanup, Done]"
    using r by (rule interact_refused_done)
next
  assume "\<exists>e. fst (approve_try a env) = Some e"
  then obtain e a1 ev where "approve_try a env = (Some e, a1, ev)"
    by (cases "approve_try a env") auto
  then show "failed (fst (ApproveHSMPolicy_interact a env)) = Some ''Exception''"
    using interact_failed by blast
next
  show "(\<exists>e. fst (approve_try a env) = Some e) =
     ((\<exists>e. explain_out env = Inl e) \<or>
      (\<exists>e. story1 env = Inl e \<and> cls e \<noteq> AbortInteraction) \<or>
      ((\<exists>text. explain_out env = Inr text) \<and> story1 env = Inr ''y'' \<and> new_file a \<and>
        ((\<exists>e. rand env = Inl e) \<or>
         (\<exists>i e. rand env = Inr i \<and> str_index ''12346'' i = Inl e) \<or>
         (\<exists>i c e. rand env = Inr i \<and> str_index ''12346'' i = Inr c \<and> story2 env = Inl e))))"
    by (rule try_raises_iff)
qed

text \<open>Two refusals: the first story answered with \<^verbatim>\<open>x\<close>, and the second story
  interrupted (an exception that leaves the \<^verbatim>\<open>try\<close> body).\<close>

theorem approval_fails_closed_witness:
  "story1 ex_env_reject = Inr ''x'' \<and> ''x'' \<noteq> ''y'' \<and>
   refused (fst (ApproveHSMPolicy_interact ex_new ex_env_reject)) \<and>
   (\<forall>b. Activate b \<notin> set (snd (ApproveHSMPolicy_interact ex_new ex_env_reject))) \<and>
   fst (approve_try ex_new ex_env_abort2) = Some (Exc AbortInteraction []) \<and>
   refused (fst (ApproveHSMPolicy_interact ex_new ex_env_abort2)) \<and>
   failed (fst (ApproveHSMPolicy_interact ex_new ex_env_abort2)) = Some ''Exception'' \<and>
   (\<forall>b. Activate b \<notin> set (snd (ApproveHSMPolicy_interact ex_new ex_env_abort2)))"
proof -
  have h1: "story1 ex_env_reject = Inr ''x''" "''x'' \<noteq> ''y''"
    by (simp_all add: ex_env_reject_def)
  have h2: "fst (approve_try ex_new ex_env_abort2) = Some (Exc AbortInteraction [])"
    by (simp add: approve_try_def first_story_def str_index_def ex_new_def ex_env_abort2_def
          Let_def)
  from approval_fails_closed[of ex_env_reject ex_new] h1
  have 1: "refused (fst (ApproveHSMPolicy_interact ex_new ex_env_reject)) \<and>
     (\<forall>b. Activate b \<notin> set (snd (ApproveHSMPolicy_interact ex_new ex_env_reject)))"
    by blast
  from approval_fails_closed[of ex_env_abort2 ex_new] h2
  have 2: "refused (fst (ApproveHSMPolicy_interact ex_new ex_env_abort2)) \<and>
     failed (fst (ApproveHSMPolicy_interact ex_new ex_env_abort2)) = Some ''Exception'' \<and>
     (\<forall>b. Activate b \<notin> set (snd (ApproveHSMPolicy_interact ex_new ex_env_abort2)))"
    by blast
  from h1 h2 1 2 show ?thesis by blast
qed


section \<open>Properties of the locked interaction loop\<close>

lemma perform_subset: "perform f k cs = (r, tr) \<Longrightarrow> set tr \<subseteq> set cs"
proof (induction cs arbitrary: k r tr)
  case Nil
  then show ?case by simp
next
  case (Cons c cs)
  show ?case
  proof (cases "f k")
    case (Some e)
    then show ?thesis using Cons.prems by auto
  next
    case None
    obtain r1 tr1 where p: "perform f (Suc k) cs = (r1, tr1)" by (cases "perform f (Suc k) cs")
    have "tr = c # tr1" using Cons.prems None p by simp
    then show ?thesis using Cons.IH[OF p] by auto
  qed
qed

lemma stats_display: "\<forall>e \<in> set (stats_calls C env). is_display e"
  by (simp add: stats_calls_def stat_text_def)

lemma digits_display: "\<forall>e \<in> set (digits_calls d). is_display e"
  by (auto simp: digits_calls_def)

lemma busy_display: "\<forall>e \<in> set (busy_calls s). is_display e"
  by (auto simp: busy_calls_def split: option.splits)

lemma show_display:
  assumes "hsm_show C env s = (r, s1, ev)"
  shows "\<forall>e \<in> set ev. is_display e"
proof -
  obtain r1 tr1 where p1: "perform (dis_raises env) 0 (stats_calls C env) = (r1, tr1)"
    by (cases "perform (dis_raises env) 0 (stats_calls C env)")
  have d1: "\<forall>e \<in> set tr1. is_display e"
    using perform_subset[OF p1] stats_display by blast
  show ?thesis
  proof (cases r1)
    case (Some e)
    then show ?thesis using assms p1 d1 by (simp add: hsm_show_def)
  next
    case None
    let ?s1 = "s\<lparr>phase := (phase s + 1) mod length cylon\<rparr>"
    let ?rest = "[DisLine (int (cylon ! phase ?s1)) 63 (int (cylon ! phase ?s1) + 12 - 1) 63]
                   @ digits_calls (digits ?s1) @ busy_calls ?s1"
    obtain r2 tr2 where p2: "perform (dis_raises env) (length (stats_calls C env)) ?rest = (r2, tr2)"
      by (cases "perform (dis_raises env) (length (stats_calls C env)) ?rest")
    have "\<forall>e \<in> set ?rest. is_display e"
      using digits_display busy_display by auto
    then have d2: "\<forall>e \<in> set tr2. is_display e"
      using perform_subset[OF p2] by blast
    have "ev = tr1 @ tr2" using assms p1 p2 None by (simp add: hsm_show_def Let_def del: perform.simps)
    then show ?thesis using d1 d2 by auto
  qed
qed

lemma show_state:
  assumes "hsm_show C env s = (r, s1, ev)"
  shows "(s1 = s \<and> r \<noteq> None \<or> s1 = s\<lparr>phase := (phase s + 1) mod length cylon\<rparr>)"
  using assms
  by (auto simp: hsm_show_def Let_def split: prod.splits option.splits)

lemma show_ok_phase:
  assumes "hsm_show C env s = (None, s1, ev)"
  shows "s1 = s\<lparr>phase := (phase s + 1) mod length cylon\<rparr>"
  using show_state[OF assms] by simp

lemma length_cylon: "length cylon = 53"
  by (simp add: cylon_def)

lemma handle_key_length:
  "handle_key C pe d ch = (r, d', ev) \<Longrightarrow> length d \<le> LOCAL_PIN_LENGTH C \<Longrightarrow> length d' \<le> LOCAL_PIN_LENGTH C"
  by (auto simp: handle_key_def split: if_splits option.splits)

lemma poll_and_handle_length:
  "poll_and_handle C env d = (r, d', ev) \<Longrightarrow> length d \<le> LOCAL_PIN_LENGTH C \<Longrightarrow> length d' \<le> LOCAL_PIN_LENGTH C"
  by (auto simp: poll_and_handle_def split: sum.splits prod.splits dest: handle_key_length)

lemma tick_state:
  assumes "tick C P env s slot = (r, s', slot', ev)"
  shows "\<exists>r1 s1 ev1 r2 d ev2. hsm_show C env s = (r1, s1, ev1) \<and>
           (r1 \<noteq> None \<and> s' = s1 \<or>
            r1 = None \<and> poll_and_handle C env (digits s1) = (r2, d, ev2) \<and>
              (s' = s1\<lparr>digits := d\<rparr> \<or>
               s' = s1\<lparr>digits := d, test_restart := (test_restart s1 \<or> restart_set env)\<rparr>))"
  using assms
  by (auto simp: tick_def Let_def split: prod.splits option.splits if_splits)

lemma tick_length:
  assumes "tick C P env s slot = (r, s', slot', ev)" and "length (digits s) \<le> LOCAL_PIN_LENGTH C"
  shows "length (digits s') \<le> LOCAL_PIN_LENGTH C"
proof -
  from tick_state[OF assms(1)] obtain r1 s1 ev1 r2 d ev2 where
    sh: "hsm_show C env s = (r1, s1, ev1)" and
    c: "r1 \<noteq> None \<and> s' = s1 \<or>
            r1 = None \<and> poll_and_handle C env (digits s1) = (r2, d, ev2) \<and>
              (s' = s1\<lparr>digits := d\<rparr> \<or>
               s' = s1\<lparr>digits := d, test_restart := (test_restart s1 \<or> restart_set env)\<rparr>)"
    by blast
  have d1: "digits s1 = digits s" using show_state[OF sh] by auto
  from c show ?thesis
  proof
    assume "r1 \<noteq> None \<and> s' = s1"
    then show ?thesis using d1 assms(2) by simp
  next
    assume h: "r1 = None \<and> poll_and_handle C env (digits s1) = (r2, d, ev2) \<and>
              (s' = s1\<lparr>digits := d\<rparr> \<or>
               s' = s1\<lparr>digits := d, test_restart := (test_restart s1 \<or> restart_set env)\<rparr>)"
    then have "length d \<le> LOCAL_PIN_LENGTH C"
      using poll_and_handle_length[of C env "digits s1" r2 d ev2] d1 assms(2) by simp
    with h show ?thesis by auto
  qed
qed

lemma run_loop_length:
  "run_loop C P envs s slot = (r, s', slot', ev) \<Longrightarrow> length (digits s) \<le> LOCAL_PIN_LENGTH C \<Longrightarrow>
     length (digits s') \<le> LOCAL_PIN_LENGTH C"
proof (induction envs arbitrary: s slot r s' slot' ev)
  case Nil
  then show ?case by simp
next
  case (Cons env envs)
  show ?case
  proof (cases "test_restart s")
    case True
    then show ?thesis using Cons.prems by simp
  next
    case False
    obtain r1 s1 slot1 ev1 where t: "tick C P env s slot = (r1, s1, slot1, ev1)"
      by (cases "tick C P env s slot") auto
    have l1: "length (digits s1) \<le> LOCAL_PIN_LENGTH C"
      using tick_length[OF t Cons.prems(2)] .
    show ?thesis
    proof (cases r1)
      case Looping
      obtain r2 s2 slot2 ev2 where rl: "run_loop C P envs s1 slot1 = (r2, s2, slot2, ev2)"
        by (cases "run_loop C P envs s1 slot1") auto
      have "s' = s2" using Cons.prems(1) False t Looping rl by simp
      then show ?thesis using Cons.IH[OF rl l1] by simp
    next
      case Exited
      then show ?thesis using Cons.prems(1) False t l1 by simp
    next
      case (Crashed x)
      then show ?thesis using Cons.prems(1) False t l1 by simp
    qed
  qed
qed

lemma interact_length:
  assumes "hsmUxInteraction_interact C P envs s slot = (r, s', slot', ev)"
  shows "length (digits s') \<le> LOCAL_PIN_LENGTH C"
proof -
  let ?s0 = "s\<lparr>digits := [], test_restart := False\<rparr>"
  obtain r1 s1 slot1 ev1 where rl: "run_loop C P envs ?s0 slot = (r1, s1, slot1, ev1)"
    by (cases "run_loop C P envs ?s0 slot") auto
  have "length (digits s1) \<le> LOCAL_PIN_LENGTH C"
    using run_loop_length[OF rl] by simp
  moreover have "s' = s1"
    using assms rl by (cases r1) (auto simp: hsmUxInteraction_interact_def Let_def split: if_splits)
  ultimately show ?thesis by simp
qed


lemma busy_calls_phase: "busy_calls (s\<lparr>phase := p\<rparr>) = busy_calls s"
  by (simp add: busy_calls_def)

lemma perform_head:
  "perform f k (c # cs) = (r, tr) \<Longrightarrow>
     \<exists>tr0. tr = c # tr0 \<and> perform f k (c' # cs) = (r, c' # tr0)"
  by (auto split: option.splits prod.splits)

lemma show_indep:
  assumes "hsm_show C env s = (r, s1, ev)"
  shows "\<exists>p' q' ev2. s1 = s\<lparr>phase := p'\<rparr> \<and>
           hsm_show C env (s\<lparr>phase := q\<rparr>) = (r, s\<lparr>phase := q'\<rparr>, ev2) \<and>
           no_line ev2 = no_line ev"
proof -
  obtain r1 tr1 where p1: "perform (dis_raises env) 0 (stats_calls C env) = (r1, tr1)"
    by (cases "perform (dis_raises env) 0 (stats_calls C env)")
  show ?thesis
  proof (cases r1)
    case (Some e)
    have "s = s\<lparr>phase := phase s\<rparr>" by simp
    moreover have "hsm_show C env s = (Some e, s, tr1)"
      using p1 Some by (simp add: hsm_show_def)
    moreover have "hsm_show C env (s\<lparr>phase := q\<rparr>) = (Some e, s\<lparr>phase := q\<rparr>, tr1)"
      using p1 Some by (simp add: hsm_show_def)
    ultimately show ?thesis using assms by (metis prod.inject)
  next
    case None
    let ?k = "length (stats_calls C env)"
    let ?cs = "digits_calls (digits s) @ busy_calls s"
    let ?p = "(phase s + 1) mod length cylon"
    let ?q = "(q + 1) mod length cylon"
    let ?L = "\<lambda>p. DisLine (int (cylon ! p)) 63 (int (cylon ! p) + 12 - 1) 63"
    obtain r2 tr2 where p2: "perform (dis_raises env) ?k (?L ?p # ?cs) = (r2, tr2)"
      by (cases "perform (dis_raises env) ?k (?L ?p # ?cs)")
    from perform_head[OF p2, of "?L ?q"] obtain tr0 where
      t: "tr2 = ?L ?p # tr0" and p3: "perform (dis_raises env) ?k (?L ?q # ?cs) = (r2, ?L ?q # tr0)"
      by blast
    have e1: "hsm_show C env s = (r2, s\<lparr>phase := ?p\<rparr>, tr1 @ tr2)"
      using p1 p2 None by (simp add: hsm_show_def Let_def busy_calls_phase del: perform.simps)
    have e2: "hsm_show C env (s\<lparr>phase := q\<rparr>) = (r2, s\<lparr>phase := ?q\<rparr>, tr1 @ ?L ?q # tr0)"
      using p1 p3 None by (simp add: hsm_show_def Let_def busy_calls_phase del: perform.simps)
    from e1 assms have "r = r2" "s1 = s\<lparr>phase := ?p\<rparr>" "ev = tr1 @ tr2" by simp_all
    then show ?thesis using e2 t by (auto simp: no_line_def)
  qed
qed

lemma tick_indep:
  assumes "tick C P env s slot = (r, s', slot', ev)"
  shows "\<exists>s2 ev2. tick C P env (s\<lparr>phase := q\<rparr>) slot = (r, s2, slot', ev2) \<and>
           s2\<lparr>phase := phase s'\<rparr> = s' \<and> no_line ev2 = no_line ev"
proof -
  obtain r1 s1 ev1 where sh: "hsm_show C env s = (r1, s1, ev1)"
    by (cases "hsm_show C env s") auto
  from show_indep[OF sh, of q] obtain p' q' ev2 where
    s1: "s1 = s\<lparr>phase := p'\<rparr>" and
    sh2: "hsm_show C env (s\<lparr>phase := q\<rparr>) = (r1, s\<lparr>phase := q'\<rparr>, ev2)" and
    nl: "filter (\<lambda>e. \<not> is_line e) ev2 = filter (\<lambda>e. \<not> is_line e) ev1"
    unfolding no_line_def by blast
  show ?thesis
    using assms
    by (auto simp: tick_def sh sh2 s1 nl Let_def no_line_def
          split: option.splits prod.splits if_splits)
qed


lemma display_loop_call: "is_display e \<Longrightarrow> loop_call e"
  by (cases e) simp_all

lemma handle_key_events:
  "handle_key C pe d ch = (r, d', ev) \<Longrightarrow> ev = [] \<or> ev = [LocalPinEntered d]"
  by (auto simp: handle_key_def split: if_splits option.splits)

lemma poll_and_handle_events:
  "poll_and_handle C env d = (r, d', ev) \<Longrightarrow> ev = [Poll] \<or> ev = [Poll, LocalPinEntered d]"
  by (auto simp: poll_and_handle_def split: sum.splits prod.splits dest: handle_key_events)

lemma service_pending_events:
  "service_pending P renv slot = (r, slot', ev) \<Longrightarrow>
     ev = [] \<and> slot' = slot \<and> r = None \<or>
     (\<exists>req r0 ev0. slot = Some req \<and> \<not> req_ux_done P req \<and>
        req_interact P req renv = (r0, slot', ev0) \<and> ev = ReqInteract # ev0 \<and>
        r = (case r0 of None \<Rightarrow> None
              | Some e \<Rightarrow> if cls e = AbortInteraction then None else Some e))"
  by (auto simp: service_pending_def split: option.splits prod.splits if_splits)

lemma service_pending_idle:
  "idle P slot \<Longrightarrow> service_pending P renv slot = (None, slot, [])"
  by (auto simp: service_pending_def idle_def split: option.splits)

lemma tick_shape:
  assumes "tick C P env s slot = (r, s', slot', ev)"
  shows "\<exists>r1 s1 ev1. hsm_show C env s = (r1, s1, ev1) \<and>
           ((\<exists>e. r1 = Some e \<and> r = Crashed e \<and> s' = s1 \<and> slot' = slot \<and> ev = ev1) \<or>
            (r1 = None \<and> (\<exists>r2 d ev2. poll_and_handle C env (digits s1) = (r2, d, ev2) \<and>
               ((r2 = None \<and> r = Looping \<and> s' = s1\<lparr>digits := d\<rparr> \<and> slot' = slot \<and>
                   ev = ev1 @ GcCollect # ev2) \<or>
                (\<exists>e. r2 = Some e \<and> cls e \<noteq> QueueEmpty \<and> r = Looping \<and> s' = s1\<lparr>digits := d\<rparr> \<and>
                   slot' = slot \<and> ev = ev1 @ GcCollect # ev2 @ [PrintException e]) \<or>
                (\<exists>e e'. r2 = Some e \<and> cls e = QueueEmpty \<and> sleep_raises env = Some e' \<and>
                   r = Crashed e' \<and> s' = s1\<lparr>digits := d\<rparr> \<and> slot' = slot \<and>
                   ev = ev1 @ GcCollect # ev2 @ [SleepMs 100]) \<or>
                (\<exists>e r3 ev3. r2 = Some e \<and> cls e = QueueEmpty \<and> sleep_raises env = None \<and>
                   service_pending P (req_env env) slot = (r3, slot', ev3) \<and>
                   r = (case r3 of None \<Rightarrow> Looping | Some e' \<Rightarrow> Crashed e') \<and>
                   s' = s1\<lparr>digits := d, test_restart := (test_restart s1 \<or> restart_set env)\<rparr> \<and>
                   ev = ev1 @ GcCollect # ev2 @ SleepMs 100 # ev3)))))"
  using assms
  by (auto simp: tick_def Let_def split: prod.splits option.splits if_splits)

lemma tick_events:
  assumes t: "tick C P env s slot = (r, s', slot', ev)" and x: "x \<in> set ev"
  shows "loop_call x \<or> (\<exists>req renv. x \<in> set (snd (snd (req_interact P req renv))))"
proof -
  from tick_shape[OF t] obtain r1 s1 ev1 where
    sh: "hsm_show C env s = (r1, s1, ev1)" and
    c: "(\<exists>e. r1 = Some e \<and> r = Crashed e \<and> s' = s1 \<and> slot' = slot \<and> ev = ev1) \<or>
            (r1 = None \<and> (\<exists>r2 d ev2. poll_and_handle C env (digits s1) = (r2, d, ev2) \<and>
               ((r2 = None \<and> r = Looping \<and> s' = s1\<lparr>digits := d\<rparr> \<and> slot' = slot \<and>
                   ev = ev1 @ GcCollect # ev2) \<or>
                (\<exists>e. r2 = Some e \<and> cls e \<noteq> QueueEmpty \<and> r = Looping \<and> s' = s1\<lparr>digits := d\<rparr> \<and>
                   slot' = slot \<and> ev = ev1 @ GcCollect # ev2 @ [PrintException e]) \<or>
                (\<exists>e e'. r2 = Some e \<and> cls e = QueueEmpty \<and> sleep_raises env = Some e' \<and>
                   r = Crashed e' \<and> s' = s1\<lparr>digits := d\<rparr> \<and> slot' = slot \<and>
                   ev = ev1 @ GcCollect # ev2 @ [SleepMs 100]) \<or>
                (\<exists>e r3 ev3. r2 = Some e \<and> cls e = QueueEmpty \<and> sleep_raises env = None \<and>
                   service_pending P (req_env env) slot = (r3, slot', ev3) \<and>
                   r = (case r3 of None \<Rightarrow> Looping | Some e' \<Rightarrow> Crashed e') \<and>
                   s' = s1\<lparr>digits := d, test_restart := (test_restart s1 \<or> restart_set env)\<rparr> \<and>
                   ev = ev1 @ GcCollect # ev2 @ SleepMs 100 # ev3))))"
    by blast
  have d1: "\<forall>e \<in> set ev1. loop_call e"
    using show_display[OF sh] display_loop_call by blast
  have d2: "\<And>r2 d ev2. poll_and_handle C env (digits s1) = (r2, d, ev2) \<Longrightarrow> \<forall>e \<in> set ev2. loop_call e"
    using poll_and_handle_events by fastforce
  have d3: "\<And>r3 sl ev3. service_pending P (req_env env) slot = (r3, sl, ev3) \<Longrightarrow>
              \<forall>e \<in> set ev3. loop_call e \<or> (\<exists>req renv. e \<in> set (snd (snd (req_interact P req renv))))"
  proof -
    fix r3 sl ev3 assume "service_pending P (req_env env) slot = (r3, sl, ev3)"
    from service_pending_events[OF this]
    show "\<forall>e \<in> set ev3. loop_call e \<or> (\<exists>req renv. e \<in> set (snd (snd (req_interact P req renv))))"
      by (elim disjE exE conjE) (simp, metis loop_call.simps(12) set_ConsD snd_conv)
  qed
  from c x d1 d2 d3 show ?thesis
    by (elim disjE exE conjE) (simp, fastforce+)
qed


lemma tick_idle:
  assumes t: "tick C P env s slot = (r, s', slot', ev)" and i: "idle P slot"
  shows "slot' = slot \<and> (\<forall>x \<in> set ev. loop_call x \<and> x \<noteq> ReqInteract)"
proof -
  obtain r1 s1 ev1 where sh: "hsm_show C env s = (r1, s1, ev1)"
    by (cases "hsm_show C env s") auto
  obtain r2 d ev2 where ph: "poll_and_handle C env (digits s1) = (r2, d, ev2)"
    by (cases "poll_and_handle C env (digits s1)") auto
  have d1: "\<forall>x \<in> set ev1. loop_call x \<and> x \<noteq> ReqInteract"
    using show_display[OF sh] display_loop_call by fastforce
  have d2: "\<forall>x \<in> set ev2. loop_call x \<and> x \<noteq> ReqInteract"
    using poll_and_handle_events[OF ph] by auto
  show ?thesis
    using t d1 d2
    by (auto simp: tick_def sh ph service_pending_idle[OF i] Let_def
          split: option.splits if_splits)
qed

lemma tick_not_exited: "tick C P env s slot = (r, s', slot', ev) \<Longrightarrow> r \<noteq> Exited"
  by (auto simp: tick_def Let_def split: prod.splits option.splits if_splits)

lemma tick_restart:
  assumes "tick C P env s slot = (r, s', slot', ev)" and "test_restart s'"
  shows "test_restart s \<or> restart_set env"
proof -
  from tick_state[OF assms(1)] obtain r1 s1 ev1 r2 d ev2 where
    sh: "hsm_show C env s = (r1, s1, ev1)" and
    c: "r1 \<noteq> None \<and> s' = s1 \<or>
            r1 = None \<and> poll_and_handle C env (digits s1) = (r2, d, ev2) \<and>
              (s' = s1\<lparr>digits := d\<rparr> \<or>
               s' = s1\<lparr>digits := d, test_restart := (test_restart s1 \<or> restart_set env)\<rparr>)"
    by blast
  have "test_restart s1 = test_restart s" using show_state[OF sh] by auto
  with c assms(2) show ?thesis by auto
qed

lemma run_loop_cons:
  assumes "\<not> test_restart s" and "tick C P env s slot = (r1, s1, slot1, ev1)"
  shows "run_loop C P (env # envs) s slot =
           (if r1 = Looping
            then (case run_loop C P envs s1 slot1 of
                    (r, s'', slot'', ev') \<Rightarrow> (r, s'', slot'', ev1 @ ev'))
            else (r1, s1, slot1, ev1))"
  using assms by (cases r1) simp_all

lemma run_loop_idle:
  "run_loop C P envs s slot = (r, s', slot', ev) \<Longrightarrow> idle P slot \<Longrightarrow>
     slot' = slot \<and> (\<forall>x \<in> set ev. loop_call x \<and> x \<noteq> ReqInteract)"
proof (induction envs arbitrary: s r s' slot' ev)
  case Nil
  then show ?case by simp
next
  case (Cons env envs)
  show ?case
  proof (cases "test_restart s")
    case True
    then show ?thesis using Cons.prems by simp
  next
    case False
    obtain r1 s1 slot1 ev1 where t: "tick C P env s slot = (r1, s1, slot1, ev1)"
      by (cases "tick C P env s slot") auto
    from tick_idle[OF t Cons.prems(2)] have sl: "slot1 = slot"
      and e1: "\<forall>x \<in> set ev1. loop_call x \<and> x \<noteq> ReqInteract" by simp_all
    show ?thesis
    proof (cases "r1 = Looping")
      case True
      obtain r2 s2 slot2 ev2 where rl: "run_loop C P envs s1 slot = (r2, s2, slot2, ev2)"
        by (cases "run_loop C P envs s1 slot") auto
      from Cons.IH[OF rl Cons.prems(2)] have "slot2 = slot"
        and e2: "\<forall>x \<in> set ev2. loop_call x \<and> x \<noteq> ReqInteract" by simp_all
      moreover have "slot' = slot2" "ev = ev1 @ ev2"
        using Cons.prems(1) run_loop_cons[OF False t, of envs] True rl sl by simp_all
      ultimately show ?thesis using e1 by auto
    next
      case False2: False
      have "slot' = slot1" "ev = ev1"
        using Cons.prems(1) run_loop_cons[OF False t, of envs] False2 by simp_all
      then show ?thesis using sl e1 by simp
    qed
  qed
qed

lemma run_loop_events:
  "run_loop C P envs s slot = (r, s', slot', ev) \<Longrightarrow> x \<in> set ev \<Longrightarrow>
     loop_call x \<or> (\<exists>req renv. x \<in> set (snd (snd (req_interact P req renv))))"
proof (induction envs arbitrary: s slot r s' slot' ev)
  case Nil
  then show ?case by simp
next
  case (Cons env envs)
  show ?case
  proof (cases "test_restart s")
    case True
    then show ?thesis using Cons.prems by simp
  next
    case False
    obtain r1 s1 slot1 ev1 where t: "tick C P env s slot = (r1, s1, slot1, ev1)"
      by (cases "tick C P env s slot") auto
    show ?thesis
    proof (cases "r1 = Looping")
      case True
      obtain r2 s2 slot2 ev2 where rl: "run_loop C P envs s1 slot1 = (r2, s2, slot2, ev2)"
        by (cases "run_loop C P envs s1 slot1") auto
      have "ev = ev1 @ ev2"
        using Cons.prems(1) run_loop_cons[OF False t, of envs] True rl by simp
      with Cons.prems(2) have "x \<in> set ev1 \<or> x \<in> set ev2" by simp
      then show ?thesis using tick_events[OF t] Cons.IH[OF rl] by blast
    next
      case False2: False
      have "ev = ev1"
        using Cons.prems(1) run_loop_cons[OF False t, of envs] False2 by simp
      then show ?thesis using tick_events[OF t] Cons.prems(2) by blast
    qed
  qed
qed

lemma run_loop_exited:
  "run_loop C P envs s slot = (Exited, s', slot', ev) \<Longrightarrow>
     test_restart s \<or> (\<exists>env \<in> set envs. restart_set env)"
proof (induction envs arbitrary: s slot s' slot' ev)
  case Nil
  then show ?case by (simp split: if_splits)
next
  case (Cons env envs)
  show ?case
  proof (cases "test_restart s")
    case True
    then show ?thesis by simp
  next
    case False
    obtain r1 s1 slot1 ev1 where t: "tick C P env s slot = (r1, s1, slot1, ev1)"
      by (cases "tick C P env s slot") auto
    show ?thesis
    proof (cases "r1 = Looping")
      case True
      obtain r2 s2 slot2 ev2 where rl: "run_loop C P envs s1 slot1 = (r2, s2, slot2, ev2)"
        by (cases "run_loop C P envs s1 slot1") auto
      have "r2 = Exited"
        using Cons.prems(1) run_loop_cons[OF False t, of envs] True rl by simp
      with Cons.IH rl have "test_restart s1 \<or> (\<exists>env \<in> set envs. restart_set env)" by blast
      then show ?thesis using tick_restart[OF t] False by auto
    next
      case False2: False
      have "r1 = Exited"
        using Cons.prems(1) run_loop_cons[OF False t, of envs] False2 by simp
      then show ?thesis using tick_not_exited[OF t] by simp
    qed
  qed
qed

lemma interact_shape:
  assumes "run_loop C P envs (s\<lparr>digits := [], test_restart := False\<rparr>) slot = (r1, s1, slot1, ev1)"
  shows "hsmUxInteraction_interact C P envs s slot =
           (if r1 = Exited then
              (if is_simulator C
               then (Exited, s1, slot1,
                     [InstallHooks, DrawBackground] @ ev1 @ [ClearHsmActive, NumpadStart, GotoTopMenu])
               else (Crashed (Exc AssertionError []), s1, slot1, [InstallHooks, DrawBackground] @ ev1))
            else (r1, s1, slot1, [InstallHooks, DrawBackground] @ ev1))"
  using assms by (cases r1) (simp_all add: hsmUxInteraction_interact_def Let_def)

lemma interact_exited:
  assumes "fst (hsmUxInteraction_interact C P envs s slot) = Exited"
  shows "is_simulator C \<and> (\<exists>env \<in> set envs. restart_set env)"
proof -
  obtain r1 s1 slot1 ev1 where
    rl: "run_loop C P envs (s\<lparr>digits := [], test_restart := False\<rparr>) slot = (r1, s1, slot1, ev1)"
    by (cases "run_loop C P envs (s\<lparr>digits := [], test_restart := False\<rparr>) slot") auto
  from assms have "r1 = Exited" "is_simulator C"
    by (auto simp: interact_shape[OF rl] split: if_splits)
  with rl have "run_loop C P envs (s\<lparr>digits := [], test_restart := False\<rparr>) slot = (Exited, s1, slot1, ev1)"
    by simp
  from run_loop_exited[OF this] \<open>is_simulator C\<close> show ?thesis by simp
qed

lemma interact_escape_calls:
  assumes q: "quiet_pending P x" and x: "x \<in> {ClearHsmActive, NumpadStart, GotoTopMenu}"
  shows "(x \<in> set (snd (snd (snd (hsmUxInteraction_interact C P envs s slot))))) =
         (fst (hsmUxInteraction_interact C P envs s slot) = Exited)"
proof -
  obtain r1 s1 slot1 ev1 where
    rl: "run_loop C P envs (s\<lparr>digits := [], test_restart := False\<rparr>) slot = (r1, s1, slot1, ev1)"
    by (cases "run_loop C P envs (s\<lparr>digits := [], test_restart := False\<rparr>) slot") auto
  have "\<not> loop_call x" using x by auto
  then have n: "x \<notin> set ev1"
    using run_loop_events[OF rl, of x] q by (auto simp: quiet_pending_def)
  show ?thesis using n x by (auto simp: interact_shape[OF rl])
qed

lemmas loop_defs = tick_def hsm_show_def stats_calls_def stat_text_def left_text_def
  digits_calls_def digits_msg_def busy_calls_def poll_and_handle_def handle_key_def
  service_pending_def hsmUxInteraction_interact_def Let_def

lemmas approve_defs = ApproveHSMPolicy_interact_def approve_handler_def approve_try_def
  first_story_def str_index_def approve_pending_def Let_def

lemmas sample_defs = ex_consts_def ex_pending_def ex_ui_def ex_tick_def ex_tick_draw_fail_def
  ex_new_def ex_env6_def ex_sim_def ex_tick_restart_def

lemma approve_events_quiet:
  "x \<in> {ReqInteract, ClearHsmActive, NumpadStart, GotoTopMenu} \<Longrightarrow>
     x \<notin> set (snd (ApproveHSMPolicy_interact a env))"
  by (auto simp: ApproveHSMPolicy_interact_def approve_handler_def approve_try_def
        first_story_def Let_def split: sum.splits if_splits)

lemma approve_pending_quiet:
  assumes x: "x \<in> {ReqInteract, ClearHsmActive, NumpadStart, GotoTopMenu}"
  shows "quiet_pending (approve_pending cl) x"
proof -
  have "x \<notin> set (snd (snd (req_interact (approve_pending cl) req renv)))" for req renv
  proof -
    obtain a' ev where i: "ApproveHSMPolicy_interact req renv = (a', ev)"
      by (cases "ApproveHSMPolicy_interact req renv")
    from approve_events_quiet[OF x, of req renv] i show ?thesis
      by (simp add: approve_pending_def)
  qed
  then show ?thesis by (simp add: quiet_pending_def)
qed

text \<open>
  Claim C4.  The abort key (a key other than \<^verbatim>\<open>x\<close> and \<^verbatim>\<open>y\<close>) is eaten: handling it raises
  nothing, leaves the digit buffer as it is and makes no call, and the iteration that polls
  it ends as the redraw left the object, with the slot untouched and only \<^verbatim>\<open>gc.collect\<close> and
  the poll after the display calls.  \<^verbatim>\<open>hsmUxInteraction.interact\<close> returns only on the
  simulator and only when the test harness has set \<^verbatim>\<open>test_restart\<close>; provided the pending
  action's steps do not call it, \<^verbatim>\<open>goto_top_menu\<close> is called exactly in the runs that end so.
\<close>

theorem lockdown_one_way:
  "(ABORT_KEY C \<noteq> ''x'' \<and> ABORT_KEY C \<noteq> ''y'' \<longrightarrow>
      handle_key C pe d (ABORT_KEY C) = (None, d, [])) \<and>
   (ABORT_KEY C \<noteq> ''x'' \<and> ABORT_KEY C \<noteq> ''y'' \<and> poll env = Inr (ABORT_KEY C) \<and>
    hsm_show C env s = (None, s1, ev1) \<longrightarrow>
      tick C P env s slot = (Looping, s1, slot, ev1 @ [GcCollect, Poll])) \<and>
   (fst (hsmUxInteraction_interact C P envs s0 slot0) = Exited \<longrightarrow>
      is_simulator C \<and> (\<exists>env \<in> set envs. restart_set env)) \<and>
   (quiet_pending P GotoTopMenu \<longrightarrow>
      (GotoTopMenu \<in> set (snd (snd (snd (hsmUxInteraction_interact C P envs s0 slot0))))) =
      (fst (hsmUxInteraction_interact C P envs s0 slot0) = Exited))"
proof -
  have p1: "ABORT_KEY C \<noteq> ''x'' \<and> ABORT_KEY C \<noteq> ''y'' \<longrightarrow>
      handle_key C pe d (ABORT_KEY C) = (None, d, [])"
    by (simp add: handle_key_def)
  have p2: "ABORT_KEY C \<noteq> ''x'' \<and> ABORT_KEY C \<noteq> ''y'' \<and> poll env = Inr (ABORT_KEY C) \<and>
    hsm_show C env s = (None, s1, ev1) \<longrightarrow>
      tick C P env s slot = (Looping, s1, slot, ev1 @ [GcCollect, Poll])"
  proof
    assume h: "ABORT_KEY C \<noteq> ''x'' \<and> ABORT_KEY C \<noteq> ''y'' \<and> poll env = Inr (ABORT_KEY C) \<and>
      hsm_show C env s = (None, s1, ev1)"
    then have "poll_and_handle C env (digits s1) = (None, digits s1, [Poll])"
      by (simp add: poll_and_handle_def handle_key_def)
    with h show "tick C P env s slot = (Looping, s1, slot, ev1 @ [GcCollect, Poll])"
      by (simp add: tick_def)
  qed
  have p3: "fst (hsmUxInteraction_interact C P envs s0 slot0) = Exited \<longrightarrow>
      is_simulator C \<and> (\<exists>env \<in> set envs. restart_set env)"
    using interact_exited[of C P envs s0 slot0] by blast
  have p4: "quiet_pending P GotoTopMenu \<longrightarrow>
      (GotoTopMenu \<in> set (snd (snd (snd (hsmUxInteraction_interact C P envs s0 slot0))))) =
      (fst (hsmUxInteraction_interact C P envs s0 slot0) = Exited)"
    using interact_escape_calls[of P GotoTopMenu C envs s0 slot0] by simp
  show ?thesis by (intro conjI p1 p2 p3 p4)
qed

lemma ex_show_abort:
  "hsm_show ex_sim (ex_tick (Inr [CHR 0x03])) ex_ui =
     (None, ex_ui\<lparr>phase := 1\<rparr>,
      [DisRestore, DisText (Some 11) 29 ''0'', DisText (Some 48) 29 ''0'',
       DisText (Some 82) 29 '' n/a'', DisLine 65 63 76 63, DisShow])"
  by (simp add: loop_defs sample_defs cylon_def)

lemma ex_run_restart:
  "fst (hsmUxInteraction_interact ex_sim ex_pending [ex_tick_restart, ex_tick (Inr ''1'')]
          ex_ui None) = Exited"
  by (simp add: loop_defs sample_defs cylon_def)

text \<open>The abort key polled on the simulator, and a run the test harness ends.\<close>

theorem lockdown_one_way_witness:
  "ABORT_KEY ex_sim \<noteq> ''x'' \<and> ABORT_KEY ex_sim \<noteq> ''y'' \<and>
   poll (ex_tick (Inr [CHR 0x03])) = Inr (ABORT_KEY ex_sim) \<and>
   tick ex_sim ex_pending (ex_tick (Inr [CHR 0x03])) ex_ui (Some ex_new) =
     (Looping, ex_ui\<lparr>phase := 1\<rparr>, Some ex_new,
      [DisRestore, DisText (Some 11) 29 ''0'', DisText (Some 48) 29 ''0'',
       DisText (Some 82) 29 '' n/a'', DisLine 65 63 76 63, DisShow, GcCollect, Poll]) \<and>
   fst (hsmUxInteraction_interact ex_sim ex_pending [ex_tick_restart, ex_tick (Inr ''1'')]
          ex_ui None) = Exited \<and>
   is_simulator ex_sim \<and>
   (\<exists>env \<in> set [ex_tick_restart, ex_tick (Inr ''1'')]. restart_set env) \<and>
   quiet_pending ex_pending GotoTopMenu \<and>
   GotoTopMenu \<in> set (snd (snd (snd (hsmUxInteraction_interact ex_sim ex_pending
                      [ex_tick_restart, ex_tick (Inr ''1'')] ex_ui None))))"
proof -
  have k: "ABORT_KEY ex_sim \<noteq> ''x'' \<and> ABORT_KEY ex_sim \<noteq> ''y'' \<and>
           poll (ex_tick (Inr [CHR 0x03])) = Inr (ABORT_KEY ex_sim)"
    by (simp add: sample_defs)
  have q: "quiet_pending ex_pending GotoTopMenu"
    unfolding ex_pending_def by (rule approve_pending_quiet) simp
  note t = lockdown_one_way[of ex_sim None "[]" "ex_tick (Inr [CHR 0x03])" ex_ui
      "ex_ui\<lparr>phase := 1\<rparr>" _ ex_pending "Some ex_new"
      "[ex_tick_restart, ex_tick (Inr ''1'')]" ex_ui None]
  from t k ex_show_abort ex_run_restart q show ?thesis by simp
qed


lemma show_keeps_digits:
  assumes "hsm_show C env s = (None, s1, ev1)"
  shows "digits s1 = digits s \<and> (\<forall>x \<in> set ev1. is_display x)"
  using show_ok_phase[OF assms] show_display[OF assms] by simp

lemma tick_key:
  assumes "hsm_show C env s = (None, s1, ev1)" and "poll env = Inr ch"
    and "handle_key C (pin_raises env) (digits s) ch = (None, d, ev2)"
  shows "tick C P env s slot = (Looping, s1\<lparr>digits := d\<rparr>, slot, ev1 @ GcCollect # Poll # ev2)"
  using assms show_keeps_digits[OF assms(1)]
  by (simp add: tick_def poll_and_handle_def)

text \<open>
  Claim C5.  After any run of \<^verbatim>\<open>hsmUxInteraction.interact\<close>, on any answers of the
  collaborators, the digit buffer holds at most \<^verbatim>\<open>LOCAL_PIN_LENGTH\<close> characters, and one
  iteration keeps that bound.  In an iteration of the loop whose \<^verbatim>\<open>show()\<close> returned (it
  leaves the buffer alone and makes display calls only): a polled key that is not \<^verbatim>\<open>x\<close>,
  \<^verbatim>\<open>y\<close>, the abort key or empty is appended (its first character) while the buffer is
  shorter than the bound and dropped otherwise; \<^verbatim>\<open>y\<close> on a buffer of another length changes
  nothing and makes no call; \<^verbatim>\<open>y\<close> on a buffer of exactly that length calls
  \<^verbatim>\<open>local_pin_entered\<close> once with the buffer and, the call having returned, leaves the buffer
  empty; \<^verbatim>\<open>x\<close> leaves the buffer empty.  In each case the iteration ends with the slot
  untouched and the loop goes on; the trace is the display calls, \<^verbatim>\<open>gc.collect\<close>, the poll
  and, for the submission, the one call of \<^verbatim>\<open>local_pin_entered\<close>.  The same is stated of the
  key handling of lines 308--320 by itself.
\<close>

theorem local_digit_buffer:
  "length (digits (fst (snd (hsmUxInteraction_interact C P envs s0 slot0)))) \<le> LOCAL_PIN_LENGTH C \<and>
   (length (digits s) \<le> LOCAL_PIN_LENGTH C \<longrightarrow>
      length (digits (fst (snd (tick C P env s slot)))) \<le> LOCAL_PIN_LENGTH C) \<and>
   (ch \<noteq> ''x'' \<and> ch \<noteq> ''y'' \<and> ch \<noteq> ABORT_KEY C \<and> ch \<noteq> [] \<longrightarrow>
      handle_key C pe d ch =
        (None, if length d < LOCAL_PIN_LENGTH C then d @ [hd ch] else d, [])) \<and>
   (length d \<noteq> LOCAL_PIN_LENGTH C \<longrightarrow> handle_key C pe d ''y'' = (None, d, [])) \<and>
   (length d = LOCAL_PIN_LENGTH C \<longrightarrow>
      snd (snd (handle_key C pe d ''y'')) = [LocalPinEntered d] \<and>
      handle_key C None d ''y'' = (None, [], [LocalPinEntered d])) \<and>
   handle_key C pe d ''x'' = (None, [], []) \<and>
   (hsm_show C env s = (None, s1, ev1) \<longrightarrow>
      digits s1 = digits s \<and> (\<forall>x \<in> set ev1. is_display x)) \<and>
   (hsm_show C env s = (None, s1, ev1) \<and> poll env = Inr ch \<and>
    ch \<noteq> ''x'' \<and> ch \<noteq> ''y'' \<and> ch \<noteq> ABORT_KEY C \<and> ch \<noteq> [] \<longrightarrow>
      tick C P env s slot =
        (Looping,
         s1\<lparr>digits := (if length (digits s) < LOCAL_PIN_LENGTH C then digits s @ [hd ch]
                        else digits s)\<rparr>,
         slot, ev1 @ [GcCollect, Poll])) \<and>
   (hsm_show C env s = (None, s1, ev1) \<and> poll env = Inr ''y'' \<and>
    length (digits s) \<noteq> LOCAL_PIN_LENGTH C \<longrightarrow>
      tick C P env s slot = (Looping, s1, slot, ev1 @ [GcCollect, Poll])) \<and>
   (hsm_show C env s = (None, s1, ev1) \<and> poll env = Inr ''y'' \<and>
    length (digits s) = LOCAL_PIN_LENGTH C \<and> pin_raises env = None \<longrightarrow>
      tick C P env s slot =
        (Looping, s1\<lparr>digits := []\<rparr>, slot,
         ev1 @ [GcCollect, Poll, LocalPinEntered (digits s)])) \<and>
   (hsm_show C env s = (None, s1, ev1) \<and> poll env = Inr ''x'' \<longrightarrow>
      tick C P env s slot = (Looping, s1\<lparr>digits := []\<rparr>, slot, ev1 @ [GcCollect, Poll]))"
proof -
  have p1: "length (digits (fst (snd (hsmUxInteraction_interact C P envs s0 slot0)))) \<le> LOCAL_PIN_LENGTH C"
    using interact_length[of C P envs s0 slot0]
    by (cases "hsmUxInteraction_interact C P envs s0 slot0") auto
  have p2: "length (digits s) \<le> LOCAL_PIN_LENGTH C \<longrightarrow>
      length (digits (fst (snd (tick C P env s slot)))) \<le> LOCAL_PIN_LENGTH C"
    using tick_length[of C P env s slot]
    by (cases "tick C P env s slot") auto
  have p3: "ch \<noteq> ''x'' \<and> ch \<noteq> ''y'' \<and> ch \<noteq> ABORT_KEY C \<and> ch \<noteq> [] \<longrightarrow>
      handle_key C pe d ch =
        (None, if length d < LOCAL_PIN_LENGTH C then d @ [hd ch] else d, [])"
    by (simp add: handle_key_def)
  have p4: "length d \<noteq> LOCAL_PIN_LENGTH C \<longrightarrow> handle_key C pe d ''y'' = (None, d, [])"
    by (simp add: handle_key_def)
  have p5: "length d = LOCAL_PIN_LENGTH C \<longrightarrow>
      snd (snd (handle_key C pe d ''y'')) = [LocalPinEntered d] \<and>
      handle_key C None d ''y'' = (None, [], [LocalPinEntered d])"
    by (simp add: handle_key_def split: option.splits)
  have p6: "handle_key C pe d ''x'' = (None, [], [])"
    by (simp add: handle_key_def)
  have p7: "hsm_show C env s = (None, s1, ev1) \<longrightarrow>
      digits s1 = digits s \<and> (\<forall>x \<in> set ev1. is_display x)"
    using show_keeps_digits[of C env s s1 ev1] by blast
  have p8: "hsm_show C env s = (None, s1, ev1) \<and> poll env = Inr ch \<and>
    ch \<noteq> ''x'' \<and> ch \<noteq> ''y'' \<and> ch \<noteq> ABORT_KEY C \<and> ch \<noteq> [] \<longrightarrow>
      tick C P env s slot =
        (Looping,
         s1\<lparr>digits := (if length (digits s) < LOCAL_PIN_LENGTH C then digits s @ [hd ch]
                        else digits s)\<rparr>,
         slot, ev1 @ [GcCollect, Poll])"
  proof
    assume h: "hsm_show C env s = (None, s1, ev1) \<and> poll env = Inr ch \<and>
      ch \<noteq> ''x'' \<and> ch \<noteq> ''y'' \<and> ch \<noteq> ABORT_KEY C \<and> ch \<noteq> []"
    then have k: "handle_key C (pin_raises env) (digits s) ch =
        (None, if length (digits s) < LOCAL_PIN_LENGTH C then digits s @ [hd ch] else digits s, [])"
      by (simp add: handle_key_def)
    from h tick_key[OF _ _ k, of s1 ev1 P slot]
    show "tick C P env s slot =
        (Looping,
         s1\<lparr>digits := (if length (digits s) < LOCAL_PIN_LENGTH C then digits s @ [hd ch]
                        else digits s)\<rparr>,
         slot, ev1 @ [GcCollect, Poll])"
      by simp
  qed
  have p9: "hsm_show C env s = (None, s1, ev1) \<and> poll env = Inr ''y'' \<and>
    length (digits s) \<noteq> LOCAL_PIN_LENGTH C \<longrightarrow>
      tick C P env s slot = (Looping, s1, slot, ev1 @ [GcCollect, Poll])"
  proof
    assume h: "hsm_show C env s = (None, s1, ev1) \<and> poll env = Inr ''y'' \<and>
      length (digits s) \<noteq> LOCAL_PIN_LENGTH C"
    then have k: "handle_key C (pin_raises env) (digits s) ''y'' = (None, digits s, [])"
      by (simp add: handle_key_def)
    have "s1\<lparr>digits := digits s\<rparr> = s1"
      using h show_keeps_digits[of C env s s1 ev1] by simp
    with h tick_key[OF _ _ k, of s1 ev1 P slot]
    show "tick C P env s slot = (Looping, s1, slot, ev1 @ [GcCollect, Poll])"
      by simp
  qed
  have p10: "hsm_show C env s = (None, s1, ev1) \<and> poll env = Inr ''y'' \<and>
    length (digits s) = LOCAL_PIN_LENGTH C \<and> pin_raises env = None \<longrightarrow>
      tick C P env s slot =
        (Looping, s1\<lparr>digits := []\<rparr>, slot,
         ev1 @ [GcCollect, Poll, LocalPinEntered (digits s)])"
  proof
    assume h: "hsm_show C env s = (None, s1, ev1) \<and> poll env = Inr ''y'' \<and>
      length (digits s) = LOCAL_PIN_LENGTH C \<and> pin_raises env = None"
    then have k: "handle_key C (pin_raises env) (digits s) ''y'' =
        (None, [], [LocalPinEntered (digits s)])"
      by (simp add: handle_key_def)
    from h tick_key[OF _ _ k, of s1 ev1 P slot]
    show "tick C P env s slot =
        (Looping, s1\<lparr>digits := []\<rparr>, slot,
         ev1 @ [GcCollect, Poll, LocalPinEntered (digits s)])"
      by simp
  qed
  have p11: "hsm_show C env s = (None, s1, ev1) \<and> poll env = Inr ''x'' \<longrightarrow>
      tick C P env s slot = (Looping, s1\<lparr>digits := []\<rparr>, slot, ev1 @ [GcCollect, Poll])"
  proof
    assume h: "hsm_show C env s = (None, s1, ev1) \<and> poll env = Inr ''x''"
    have k: "handle_key C (pin_raises env) (digits s) ''x'' = (None, [], [])"
      by (simp add: handle_key_def)
    from h tick_key[OF _ _ k, of s1 ev1 P slot]
    show "tick C P env s slot = (Looping, s1\<lparr>digits := []\<rparr>, slot, ev1 @ [GcCollect, Poll])"
      by simp
  qed
  show ?thesis by (intro conjI p1 p2 p3 p4 p5 p6 p7 p8 p9 p10 p11)
qed

lemma ex_show_ok: "fst (hsm_show ex_consts (ex_tick p) (ex_ui\<lparr>digits := d\<rparr>)) = None"
  by (simp add: loop_defs ex_consts_def ex_ui_def ex_tick_def)

text \<open>Iterations on buffers of three, five and six digits: a sixth digit is appended, a
  seventh is dropped, \<^verbatim>\<open>y\<close> submits only the full buffer and empties it, \<^verbatim>\<open>x\<close> empties
  the buffer.\<close>

theorem local_digit_buffer_witness:
  "length (digits ex_ui) \<le> LOCAL_PIN_LENGTH ex_consts \<and>
   length (digits (fst (snd (tick ex_consts ex_pending (ex_tick (Inr ''7'')) ex_ui None)))) \<le> 6 \<and>
   handle_key ex_consts None ''12345'' ''7'' = (None, ''123457'', []) \<and>
   handle_key ex_consts None ''123456'' ''7'' = (None, ''123456'', []) \<and>
   handle_key ex_consts None ''12345'' ''y'' = (None, ''12345'', []) \<and>
   handle_key ex_consts None ''123456'' ''y'' = (None, [], [LocalPinEntered ''123456'']) \<and>
   digits (fst (snd (tick ex_consts ex_pending (ex_tick (Inr ''7''))
                       (ex_ui\<lparr>digits := ''12345''\<rparr>) None))) = ''123457'' \<and>
   digits (fst (snd (tick ex_consts ex_pending (ex_tick (Inr ''7''))
                       (ex_ui\<lparr>digits := ''123456''\<rparr>) None))) = ''123456'' \<and>
   digits (fst (snd (tick ex_consts ex_pending (ex_tick (Inr ''y''))
                       (ex_ui\<lparr>digits := ''12345''\<rparr>) None))) = ''12345'' \<and>
   snd (snd (snd (tick ex_consts ex_pending (ex_tick (Inr ''y''))
                       (ex_ui\<lparr>digits := ''12345''\<rparr>) None))) =
     snd (snd (hsm_show ex_consts (ex_tick (Inr ''y'')) (ex_ui\<lparr>digits := ''12345''\<rparr>))) @
     [GcCollect, Poll] \<and>
   digits (fst (snd (tick ex_consts ex_pending (ex_tick (Inr ''y''))
                       (ex_ui\<lparr>digits := ''123456''\<rparr>) None))) = [] \<and>
   snd (snd (snd (tick ex_consts ex_pending (ex_tick (Inr ''y''))
                       (ex_ui\<lparr>digits := ''123456''\<rparr>) None))) =
     snd (snd (hsm_show ex_consts (ex_tick (Inr ''y'')) (ex_ui\<lparr>digits := ''123456''\<rparr>))) @
     [GcCollect, Poll, LocalPinEntered ''123456''] \<and>
   digits (fst (snd (tick ex_consts ex_pending (ex_tick (Inr ''x''))
                       (ex_ui\<lparr>digits := ''123''\<rparr>) None))) = []"
proof -
  have c: "LOCAL_PIN_LENGTH ex_consts = 6" "ABORT_KEY ex_consts = [CHR 0x03]"
    by (simp_all add: ex_consts_def)
  have l: "length (digits ex_ui) \<le> LOCAL_PIN_LENGTH ex_consts"
    by (simp add: ex_ui_def ex_consts_def)
  have e: "poll (ex_tick p) = p" "pin_raises (ex_tick p) = None" for p
    by (simp_all add: ex_tick_def)
  have H: "hsm_show ex_consts (ex_tick p) (ex_ui\<lparr>digits := d\<rparr>) =
             (None, fst (snd (hsm_show ex_consts (ex_tick p) (ex_ui\<lparr>digits := d\<rparr>))),
              snd (snd (hsm_show ex_consts (ex_tick p) (ex_ui\<lparr>digits := d\<rparr>))))" for p d
    using ex_show_ok[of p d] by (metis prod.collapse)
  note a = local_digit_buffer[of ex_consts ex_pending "[]" ex_ui None ex_ui "ex_tick (Inr ''7'')" None
      "''7''" None "''12345''"]
  note b = local_digit_buffer[of ex_consts ex_pending "[]" ex_ui None ex_ui "ex_tick (Inr ''7'')" None
      "''7''" None "''123456''"]
  have old: "length (digits ex_ui) \<le> LOCAL_PIN_LENGTH ex_consts \<and>
   length (digits (fst (snd (tick ex_consts ex_pending (ex_tick (Inr ''7'')) ex_ui None)))) \<le> 6 \<and>
   handle_key ex_consts None ''12345'' ''7'' = (None, ''123457'', []) \<and>
   handle_key ex_consts None ''123456'' ''7'' = (None, ''123456'', []) \<and>
   handle_key ex_consts None ''12345'' ''y'' = (None, ''12345'', []) \<and>
   handle_key ex_consts None ''123456'' ''y'' = (None, [], [LocalPinEntered ''123456''])"
    using a b c l by simp
  have w1: "digits (fst (snd (tick ex_consts ex_pending (ex_tick (Inr ''7''))
                       (ex_ui\<lparr>digits := ''12345''\<rparr>) None))) = ''123457''"
    using local_digit_buffer[of ex_consts ex_pending "[]" ex_ui None
        "ex_ui\<lparr>digits := ''12345''\<rparr>" "ex_tick (Inr ''7'')" None "''7''" None "[]"
        "fst (snd (hsm_show ex_consts (ex_tick (Inr ''7'')) (ex_ui\<lparr>digits := ''12345''\<rparr>)))"
        "snd (snd (hsm_show ex_consts (ex_tick (Inr ''7'')) (ex_ui\<lparr>digits := ''12345''\<rparr>)))"]
      H[of "Inr ''7''" "''12345''"] c e
    by simp
  have w2: "digits (fst (snd (tick ex_consts ex_pending (ex_tick (Inr ''7''))
                       (ex_ui\<lparr>digits := ''123456''\<rparr>) None))) = ''123456''"
    using local_digit_buffer[of ex_consts ex_pending "[]" ex_ui None
        "ex_ui\<lparr>digits := ''123456''\<rparr>" "ex_tick (Inr ''7'')" None "''7''" None "[]"
        "fst (snd (hsm_show ex_consts (ex_tick (Inr ''7'')) (ex_ui\<lparr>digits := ''123456''\<rparr>)))"
        "snd (snd (hsm_show ex_consts (ex_tick (Inr ''7'')) (ex_ui\<lparr>digits := ''123456''\<rparr>)))"]
      H[of "Inr ''7''" "''123456''"] c e
    by simp
  note y5 = local_digit_buffer[of ex_consts ex_pending "[]" ex_ui None
        "ex_ui\<lparr>digits := ''12345''\<rparr>" "ex_tick (Inr ''y'')" None "''y''" None "[]"
        "fst (snd (hsm_show ex_consts (ex_tick (Inr ''y'')) (ex_ui\<lparr>digits := ''12345''\<rparr>)))"
        "snd (snd (hsm_show ex_consts (ex_tick (Inr ''y'')) (ex_ui\<lparr>digits := ''12345''\<rparr>)))"]
  have w3: "digits (fst (snd (tick ex_consts ex_pending (ex_tick (Inr ''y''))
                       (ex_ui\<lparr>digits := ''12345''\<rparr>) None))) = ''12345''"
    using y5 H[of "Inr ''y''" "''12345''"] c e by simp
  have w4: "snd (snd (snd (tick ex_consts ex_pending (ex_tick (Inr ''y''))
                       (ex_ui\<lparr>digits := ''12345''\<rparr>) None))) =
     snd (snd (hsm_show ex_consts (ex_tick (Inr ''y'')) (ex_ui\<lparr>digits := ''12345''\<rparr>))) @
     [GcCollect, Poll]"
    using y5 H[of "Inr ''y''" "''12345''"] c e by simp
  note y6 = local_digit_buffer[of ex_consts ex_pending "[]" ex_ui None
        "ex_ui\<lparr>digits := ''123456''\<rparr>" "ex_tick (Inr ''y'')" None "''y''" None "[]"
        "fst (snd (hsm_show ex_consts (ex_tick (Inr ''y'')) (ex_ui\<lparr>digits := ''123456''\<rparr>)))"
        "snd (snd (hsm_show ex_consts (ex_tick (Inr ''y'')) (ex_ui\<lparr>digits := ''123456''\<rparr>)))"]
  have w5: "digits (fst (snd (tick ex_consts ex_pending (ex_tick (Inr ''y''))
                       (ex_ui\<lparr>digits := ''123456''\<rparr>) None))) = []"
    using y6 H[of "Inr ''y''" "''123456''"] c e by simp
  have w6: "snd (snd (snd (tick ex_consts ex_pending (ex_tick (Inr ''y''))
                       (ex_ui\<lparr>digits := ''123456''\<rparr>) None))) =
     snd (snd (hsm_show ex_consts (ex_tick (Inr ''y'')) (ex_ui\<lparr>digits := ''123456''\<rparr>))) @
     [GcCollect, Poll, LocalPinEntered ''123456'']"
    using y6 H[of "Inr ''y''" "''123456''"] c e by simp
  have w7: "digits (fst (snd (tick ex_consts ex_pending (ex_tick (Inr ''x''))
                       (ex_ui\<lparr>digits := ''123''\<rparr>) None))) = []"
    using local_digit_buffer[of ex_consts ex_pending "[]" ex_ui None
        "ex_ui\<lparr>digits := ''123''\<rparr>" "ex_tick (Inr ''x'')" None "''x''" None "[]"
        "fst (snd (hsm_show ex_consts (ex_tick (Inr ''x'')) (ex_ui\<lparr>digits := ''123''\<rparr>)))"
        "snd (snd (hsm_show ex_consts (ex_tick (Inr ''x'')) (ex_ui\<lparr>digits := ''123''\<rparr>)))"]
      H[of "Inr ''x''" "''123''"] c e
    by simp
  from old show ?thesis by (intro conjI w1 w2 w3 w4 w5 w6 w7) blast+
qed

lemma tick_looping_phase:
  assumes "tick C P env s slot = (Looping, s', slot', ev)"
  shows "phase s' = (phase s + 1) mod length cylon"
proof -
  obtain r1 s1 ev1 where sh: "hsm_show C env s = (r1, s1, ev1)"
    by (cases "hsm_show C env s") auto
  have r1: "r1 = None"
    using assms sh by (cases r1) (auto simp: tick_def)
  have "phase s' = phase s1"
    using assms sh r1
    by (auto simp: tick_def Let_def split: prod.splits option.splits if_splits)
  then show ?thesis using show_ok_phase[OF sh[unfolded r1]] by simp
qed

text \<open>
  Claim C9.  The table has 53 entries.  Every \<^verbatim>\<open>show()\<close> that returns, and so every
  iteration after which the loop goes on, whatever was polled, leaves
  \<^verbatim>\<open>phase = (phase + 1) mod 53\<close>.  Starting the iteration from another phase \<open>q\<close> changes
  neither how it ends nor the slot, nor any field of the object but \<open>phase\<close>, nor any call of
  the trace but the heartbeat line.
\<close>

theorem heartbeat_advances:
  "length cylon = 53 \<and>
   (fst (hsm_show C env s) = None \<longrightarrow>
      phase (fst (snd (hsm_show C env s))) = (phase s + 1) mod length cylon) \<and>
   (fst (tick C P env s slot) = Looping \<longrightarrow>
      phase (fst (snd (tick C P env s slot))) = (phase s + 1) mod length cylon) \<and>
   fst (tick C P env (s\<lparr>phase := q\<rparr>) slot) = fst (tick C P env s slot) \<and>
   (fst (snd (tick C P env (s\<lparr>phase := q\<rparr>) slot)))
      \<lparr>phase := phase (fst (snd (tick C P env s slot)))\<rparr> = fst (snd (tick C P env s slot)) \<and>
   fst (snd (snd (tick C P env (s\<lparr>phase := q\<rparr>) slot))) = fst (snd (snd (tick C P env s slot))) \<and>
   no_line (snd (snd (snd (tick C P env (s\<lparr>phase := q\<rparr>) slot)))) =
     no_line (snd (snd (snd (tick C P env s slot))))"
proof -
  have p1: "length cylon = 53" by (rule length_cylon)
  have p2: "fst (hsm_show C env s) = None \<longrightarrow>
      phase (fst (snd (hsm_show C env s))) = (phase s + 1) mod length cylon"
    using show_ok_phase[of C env s]
    by (cases "hsm_show C env s") auto
  have p3: "fst (tick C P env s slot) = Looping \<longrightarrow>
      phase (fst (snd (tick C P env s slot))) = (phase s + 1) mod length cylon"
    using tick_looping_phase[of C P env s slot]
    by (cases "tick C P env s slot") auto
  obtain r s' slot' ev where t: "tick C P env s slot = (r, s', slot', ev)"
    by (cases "tick C P env s slot") auto
  from tick_indep[OF t, of q] obtain s2 ev2 where
    t2: "tick C P env (s\<lparr>phase := q\<rparr>) slot = (r, s2, slot', ev2)" and
    st: "s2\<lparr>phase := phase s'\<rparr> = s'" and nl: "no_line ev2 = no_line ev"
    by blast
  have p4: "fst (tick C P env (s\<lparr>phase := q\<rparr>) slot) = fst (tick C P env s slot)"
    by (simp add: t t2)
  have p5: "(fst (snd (tick C P env (s\<lparr>phase := q\<rparr>) slot)))
      \<lparr>phase := phase (fst (snd (tick C P env s slot)))\<rparr> = fst (snd (tick C P env s slot))"
    by (simp add: t t2 st)
  have p6: "fst (snd (snd (tick C P env (s\<lparr>phase := q\<rparr>) slot))) = fst (snd (snd (tick C P env s slot)))"
    by (simp add: t t2)
  have p7: "no_line (snd (snd (snd (tick C P env (s\<lparr>phase := q\<rparr>) slot)))) =
     no_line (snd (snd (snd (tick C P env s slot))))"
    by (simp add: t t2 nl)
  show ?thesis by (intro conjI p1 p2 p3 p4 p5 p6 p7)
qed

text \<open>From the last entry of the table the phase wraps to 0.\<close>

theorem heartbeat_advances_witness:
  "fst (hsm_show ex_consts (ex_tick (Inr ''1'')) (ex_ui\<lparr>phase := 52\<rparr>)) = None \<and>
   phase (fst (snd (hsm_show ex_consts (ex_tick (Inr ''1'')) (ex_ui\<lparr>phase := 52\<rparr>)))) = 0 \<and>
   fst (tick ex_consts ex_pending (ex_tick (Inr ''1'')) (ex_ui\<lparr>phase := 52\<rparr>) None) = Looping \<and>
   phase (fst (snd (tick ex_consts ex_pending (ex_tick (Inr ''1'')) (ex_ui\<lparr>phase := 52\<rparr>) None))) = 0"
proof -
  have h1: "fst (hsm_show ex_consts (ex_tick (Inr ''1'')) (ex_ui\<lparr>phase := 52\<rparr>)) = None"
    by (simp add: loop_defs sample_defs cylon_def)
  have h2: "fst (tick ex_consts ex_pending (ex_tick (Inr ''1'')) (ex_ui\<lparr>phase := 52\<rparr>) None) = Looping"
    by (simp add: loop_defs sample_defs cylon_def)
  have p: "phase (ex_ui\<lparr>phase := 52\<rparr>) = 52" by simp
  from heartbeat_advances[of ex_consts "ex_tick (Inr ''1'')" "ex_ui\<lparr>phase := 52\<rparr>" ex_pending None 0]
    h1 h2 p
  show ?thesis by simp
qed

text \<open>
  Claim C3, as stated, fails: with the key \<^verbatim>\<open>1\<close> polled and a pending action in the slot whose
  \<^verbatim>\<open>ux_done\<close> is not set, the iteration ends at the \<^verbatim>\<open>continue\<close> of line 323 and
  \<^verbatim>\<open>req.interact()\<close> is not entered.
\<close>

theorem pending_step_skipped_counterexample:
  "\<not> req_ux_done ex_pending ex_new \<and>
   poll (ex_tick (Inr ''1'')) = Inr ''1'' \<and>
   fst (tick ex_consts ex_pending (ex_tick (Inr ''1'')) ex_ui (Some ex_new)) = Looping \<and>
   count_list (snd (snd (snd (tick ex_consts ex_pending (ex_tick (Inr ''1'')) ex_ui (Some ex_new)))))
      ReqInteract = 0"
  by (simp add: loop_defs sample_defs approve_defs)

text \<open>
  Claim C3, amended.  In an iteration whose \<^verbatim>\<open>show()\<close> returned, with a pending action in the
  slot whose \<^verbatim>\<open>ux_done\<close> is not set: when the poll finds the queue empty and \<^verbatim>\<open>sleep_ms\<close>
  returns, \<^verbatim>\<open>req.interact()\<close> is entered once, after the poll and the sleep, and no earlier
  call of the iteration is such a step; when the poll returns a key (and \<^verbatim>\<open>local_pin_entered\<close>
  does not raise), or raises anything but QueueEmpty, the iteration ends without a step of
  the pending action and the loop goes on.
\<close>

theorem pending_step_after_empty_poll:
  assumes "hsm_show C env s = (None, s1, ev1)" and "slot = Some req" and "\<not> req_ux_done P req"
  shows "(\<forall>e. poll env = Inl e \<and> cls e = QueueEmpty \<and> sleep_raises env = None \<longrightarrow>
            snd (snd (snd (tick C P env s slot))) =
              ev1 @ [GcCollect, Poll, SleepMs 100, ReqInteract] @
              snd (snd (req_interact P req (req_env env))) \<and>
            ReqInteract \<notin> set (ev1 @ [GcCollect, Poll, SleepMs 100])) \<and>
         (\<forall>ch. poll env = Inr ch \<and> pin_raises env = None \<longrightarrow>
            fst (tick C P env s slot) = Looping \<and>
            fst (snd (snd (tick C P env s slot))) = slot \<and>
            ReqInteract \<notin> set (snd (snd (snd (tick C P env s slot))))) \<and>
         (\<forall>e. poll env = Inl e \<and> cls e \<noteq> QueueEmpty \<longrightarrow>
            tick C P env s slot = (Looping, s1, slot, ev1 @ [GcCollect, Poll, PrintException e]))"
proof -
  have d1: "ReqInteract \<notin> set ev1"
    using show_display[OF assms(1)] by fastforce
  have p1: "\<forall>e. poll env = Inl e \<and> cls e = QueueEmpty \<and> sleep_raises env = None \<longrightarrow>
            snd (snd (snd (tick C P env s slot))) =
              ev1 @ [GcCollect, Poll, SleepMs 100, ReqInteract] @
              snd (snd (req_interact P req (req_env env))) \<and>
            ReqInteract \<notin> set (ev1 @ [GcCollect, Poll, SleepMs 100])"
    using assms d1
    by (auto simp: tick_def poll_and_handle_def service_pending_def Let_def
          split: prod.splits option.splits)
  have p2: "\<forall>ch. poll env = Inr ch \<and> pin_raises env = None \<longrightarrow>
            fst (tick C P env s slot) = Looping \<and>
            fst (snd (snd (tick C P env s slot))) = slot \<and>
            ReqInteract \<notin> set (snd (snd (snd (tick C P env s slot))))"
    using assms(1) d1
    by (auto simp: tick_def poll_and_handle_def handle_key_def Let_def
          split: prod.splits option.splits if_splits)
  have p3: "\<forall>e. poll env = Inl e \<and> cls e \<noteq> QueueEmpty \<longrightarrow>
            tick C P env s slot = (Looping, s1, slot, ev1 @ [GcCollect, Poll, PrintException e])"
    using assms(1)
    by (auto simp: tick_def poll_and_handle_def Let_def)
  show ?thesis by (intro conjI p1 p2 p3)
qed

lemma ex_show_idle:
  "hsm_show ex_consts (ex_tick (Inl (Exc QueueEmpty []))) ex_ui =
     (None, ex_ui\<lparr>phase := 1\<rparr>,
      [DisRestore, DisText (Some 11) 29 ''0'', DisText (Some 48) 29 ''0'',
       DisText (Some 82) 29 '' n/a'', DisLine 65 63 76 63, DisShow])"
  by (simp add: loop_defs sample_defs cylon_def)

text \<open>An empty poll with the approval flow pending: its step follows the poll and the
  sleep.\<close>

theorem pending_step_after_empty_poll_witness:
  "hsm_show ex_consts (ex_tick (Inl (Exc QueueEmpty []))) ex_ui =
     (None, ex_ui\<lparr>phase := 1\<rparr>,
      [DisRestore, DisText (Some 11) 29 ''0'', DisText (Some 48) 29 ''0'',
       DisText (Some 82) 29 '' n/a'', DisLine 65 63 76 63, DisShow]) \<and>
   \<not> req_ux_done ex_pending ex_new \<and>
   snd (snd (snd (tick ex_consts ex_pending (ex_tick (Inl (Exc QueueEmpty []))) ex_ui (Some ex_new)))) =
     [DisRestore, DisText (Some 11) 29 ''0'', DisText (Some 48) 29 ''0'',
      DisText (Some 82) 29 '' n/a'', DisLine 65 63 76 63, DisShow,
      GcCollect, Poll, SleepMs 100, ReqInteract] @
     snd (ApproveHSMPolicy_interact ex_new ex_env6)"
proof -
  have n: "\<not> req_ux_done ex_pending ex_new"
    by (simp add: sample_defs approve_pending_def)
  have k: "poll (ex_tick (Inl (Exc QueueEmpty []))) = Inl (Exc QueueEmpty [])"
     "cls (Exc QueueEmpty []) = QueueEmpty"
     "sleep_raises (ex_tick (Inl (Exc QueueEmpty []))) = None"
     "req_env (ex_tick (Inl (Exc QueueEmpty []))) = ex_env6"
    by (simp_all add: ex_tick_def)
  have r: "snd (snd (req_interact ex_pending ex_new ex_env6)) =
             snd (ApproveHSMPolicy_interact ex_new ex_env6)"
    by (simp add: ex_pending_def approve_pending_def split: prod.splits)
  from pending_step_after_empty_poll[OF ex_show_idle refl n] k r ex_show_idle n
  show ?thesis by simp
qed

text \<open>
  Claim C8, as stated, fails: \<^verbatim>\<open>self.show()\<close> (line 301) stands outside the \<^verbatim>\<open>try\<close> of the
  loop body, so an exception raised while the first statistic is drawn leaves the loop and
  \<^verbatim>\<open>interact\<close>.
\<close>

theorem draw_error_leaves_loop_counterexample:
  "dis_raises ex_tick_draw_fail 1 = Some (Exc OtherException ''display'') \<and>
   fst (hsmUxInteraction_interact ex_consts ex_pending [ex_tick_draw_fail, ex_tick (Inr ''1'')]
          ex_ui None) = Crashed (Exc OtherException ''display'')"
  by (simp add: loop_defs sample_defs)

lemma tick_crashed:
  assumes "tick C P env s slot = (Crashed e, s', slot', ev)"
  shows "fst (hsm_show C env s) = Some e \<or> sleep_raises env = Some e \<or>
         (\<exists>req. slot = Some req \<and> \<not> req_ux_done P req \<and>
            fst (req_interact P req (req_env env)) = Some e \<and> cls e \<noteq> AbortInteraction)"
  using assms
  by (auto simp: tick_def service_pending_def Let_def
        split: prod.splits option.splits if_splits)

text \<open>
  Claim C8, amended.  An exception other than QueueEmpty raised by the poll or by the handling
  of the polled key is printed and the loop goes on with the next iteration; AbortInteraction
  raised by the step of the pending action is swallowed.  An exception raised by \<^verbatim>\<open>show()\<close>,
  an exception raised by \<^verbatim>\<open>sleep_ms\<close> after an empty poll, and an exception other than
  AbortInteraction raised by the step of the pending action each end the iteration with that
  exception, and an iteration that ends so ends the loop and \<^verbatim>\<open>interact\<close> with it; these are
  the only exceptions that leave an iteration.  \<^verbatim>\<open>main.hsm_active = None\<close> is executed exactly
  in the runs that end by the simulator's escape (provided no step of a pending action does
  it), and in the approval flow \<^verbatim>\<open>activate\<close> is followed by \<^verbatim>\<open>the_ux.reset\<close> alone.
\<close>

theorem loop_catches_input_errors:
  "(hsm_show C env s = (None, s1, ev1) \<and> poll_and_handle C env (digits s1) = (Some e, d, ev2) \<and>
    cls e \<noteq> QueueEmpty \<longrightarrow>
      tick C P env s slot =
        (Looping, s1\<lparr>digits := d\<rparr>, slot, ev1 @ GcCollect # ev2 @ [PrintException e])) \<and>
   (req_interact P req renv = (Some e, slot', ev) \<and> cls e = AbortInteraction \<and>
    \<not> req_ux_done P req \<longrightarrow>
      service_pending P renv (Some req) = (None, slot', ReqInteract # ev)) \<and>
   (fst (tick C P env s slot) = Crashed e \<longrightarrow>
      fst (hsm_show C env s) = Some e \<or> sleep_raises env = Some e \<or>
      (\<exists>req. slot = Some req \<and> \<not> req_ux_done P req \<and>
         fst (req_interact P req (req_env env)) = Some e \<and> cls e \<noteq> AbortInteraction)) \<and>
   (quiet_pending P ClearHsmActive \<longrightarrow>
      (ClearHsmActive \<in> set (snd (snd (snd (hsmUxInteraction_interact C P envs s0 slot0))))) =
      (fst (hsmUxInteraction_interact C P envs s0 slot0) = Exited)) \<and>
   (Activate b \<in> set (snd (ApproveHSMPolicy_interact a aenv)) \<longrightarrow>
      (\<exists>ev0. snd (ApproveHSMPolicy_interact a aenv) = ev0 @ [Activate b, ResetUx])) \<and>
   (fst (hsm_show C env s) = Some e \<longrightarrow> fst (tick C P env s slot) = Crashed e) \<and>
   (hsm_show C env s = (None, s1, ev1) \<and> poll_and_handle C env (digits s1) = (Some e0, d, ev2) \<and>
    cls e0 = QueueEmpty \<and> sleep_raises env = Some e \<longrightarrow>
      tick C P env s slot =
        (Crashed e, s1\<lparr>digits := d\<rparr>, slot, ev1 @ GcCollect # ev2 @ [SleepMs 100])) \<and>
   (hsm_show C env s = (None, s1, ev1) \<and> poll_and_handle C env (digits s1) = (Some e0, d, ev2) \<and>
    cls e0 = QueueEmpty \<and> sleep_raises env = None \<and> slot = Some req \<and> \<not> req_ux_done P req \<and>
    fst (req_interact P req (req_env env)) = Some e \<and> cls e \<noteq> AbortInteraction \<longrightarrow>
      fst (tick C P env s slot) = Crashed e \<and>
      snd (snd (snd (tick C P env s slot))) =
        ev1 @ GcCollect # ev2 @ SleepMs 100 # ReqInteract #
        snd (snd (req_interact P req (req_env env)))) \<and>
   (\<not> test_restart s \<and> fst (tick C P env s slot) = Crashed e \<longrightarrow>
      fst (run_loop C P (env # envs) s slot) = Crashed e) \<and>
   (fst (tick C P env (s0\<lparr>digits := [], test_restart := False\<rparr>) slot0) = Crashed e \<longrightarrow>
      fst (hsmUxInteraction_interact C P (env # envs) s0 slot0) = Crashed e)"
proof -
  have p1: "hsm_show C env s = (None, s1, ev1) \<and> poll_and_handle C env (digits s1) = (Some e, d, ev2) \<and>
    cls e \<noteq> QueueEmpty \<longrightarrow>
      tick C P env s slot =
        (Looping, s1\<lparr>digits := d\<rparr>, slot, ev1 @ GcCollect # ev2 @ [PrintException e])"
    by (simp add: tick_def Let_def)
  have p2: "req_interact P req renv = (Some e, slot', ev) \<and> cls e = AbortInteraction \<and>
    \<not> req_ux_done P req \<longrightarrow>
      service_pending P renv (Some req) = (None, slot', ReqInteract # ev)"
    by (simp add: service_pending_def)
  have p3: "fst (tick C P env s slot) = Crashed e \<longrightarrow>
      fst (hsm_show C env s) = Some e \<or> sleep_raises env = Some e \<or>
      (\<exists>req. slot = Some req \<and> \<not> req_ux_done P req \<and>
         fst (req_interact P req (req_env env)) = Some e \<and> cls e \<noteq> AbortInteraction)"
    using tick_crashed[of C P env s slot e]
    by (cases "tick C P env s slot") auto
  have p4: "quiet_pending P ClearHsmActive \<longrightarrow>
      (ClearHsmActive \<in> set (snd (snd (snd (hsmUxInteraction_interact C P envs s0 slot0))))) =
      (fst (hsmUxInteraction_interact C P envs s0 slot0) = Exited)"
    using interact_escape_calls[of P ClearHsmActive C envs s0 slot0] by simp
  have p5: "Activate b \<in> set (snd (ApproveHSMPolicy_interact a aenv)) \<longrightarrow>
      (\<exists>ev0. snd (ApproveHSMPolicy_interact a aenv) = ev0 @ [Activate b, ResetUx])"
  proof
    assume h: "Activate b \<in> set (snd (ApproveHSMPolicy_interact a aenv))"
    obtain r a1 evt where t: "approve_try a aenv = (r, a1, evt)" by (cases "approve_try a aenv")
    have "snd (ApproveHSMPolicy_interact a aenv) = (evt @ [Cleanup]) @ [Activate b, ResetUx]"
      using h approve_try_quiet[OF t, of b]
      by (cases r) (auto simp: interact_unfold[OF t] split: if_splits)
    then show "\<exists>ev0. snd (ApproveHSMPolicy_interact a aenv) = ev0 @ [Activate b, ResetUx]"
      by blast
  qed
  have p6: "fst (hsm_show C env s) = Some e \<longrightarrow> fst (tick C P env s slot) = Crashed e"
    by (cases "hsm_show C env s") (auto simp: tick_def)
  have p7: "hsm_show C env s = (None, s1, ev1) \<and> poll_and_handle C env (digits s1) = (Some e0, d, ev2) \<and>
    cls e0 = QueueEmpty \<and> sleep_raises env = Some e \<longrightarrow>
      tick C P env s slot =
        (Crashed e, s1\<lparr>digits := d\<rparr>, slot, ev1 @ GcCollect # ev2 @ [SleepMs 100])"
    by (simp add: tick_def Let_def)
  have p8: "hsm_show C env s = (None, s1, ev1) \<and> poll_and_handle C env (digits s1) = (Some e0, d, ev2) \<and>
    cls e0 = QueueEmpty \<and> sleep_raises env = None \<and> slot = Some req \<and> \<not> req_ux_done P req \<and>
    fst (req_interact P req (req_env env)) = Some e \<and> cls e \<noteq> AbortInteraction \<longrightarrow>
      fst (tick C P env s slot) = Crashed e \<and>
      snd (snd (snd (tick C P env s slot))) =
        ev1 @ GcCollect # ev2 @ SleepMs 100 # ReqInteract #
        snd (snd (req_interact P req (req_env env)))"
    by (cases "req_interact P req (req_env env)")
       (auto simp: tick_def service_pending_def Let_def)
  have p9: "\<not> test_restart s \<and> fst (tick C P env s slot) = Crashed e \<longrightarrow>
      fst (run_loop C P (env # envs) s slot) = Crashed e"
    by (cases "tick C P env s slot") auto
  have p10: "fst (tick C P env (s0\<lparr>digits := [], test_restart := False\<rparr>) slot0) = Crashed e \<longrightarrow>
      fst (hsmUxInteraction_interact C P (env # envs) s0 slot0) = Crashed e"
    by (cases "tick C P env (s0\<lparr>digits := [], test_restart := False\<rparr>) slot0")
       (auto simp: hsmUxInteraction_interact_def Let_def)
  show ?thesis by (intro conjI p1 p2 p3 p4 p5 p6 p7 p8 p9 p10)
qed


text \<open>A keypad error is printed and the loop goes on; a display error, a failing sleep and
  a failing step of the pending action each end the iteration and the loop.\<close>

theorem loop_catches_input_errors_witness:
  "hsm_show ex_consts ex_tick_poll_fail ex_ui =
     (None, ex_ui\<lparr>phase := 1\<rparr>,
      [DisRestore, DisText (Some 11) 29 ''0'', DisText (Some 48) 29 ''0'',
       DisText (Some 82) 29 '' n/a'', DisLine 65 63 76 63, DisShow]) \<and>
   poll_and_handle ex_consts ex_tick_poll_fail [] = (Some (Exc OtherException ''keypad''), [], [Poll]) \<and>
   tick ex_consts ex_pending ex_tick_poll_fail ex_ui None =
     (Looping, ex_ui\<lparr>phase := 1\<rparr>, None,
      [DisRestore, DisText (Some 11) 29 ''0'', DisText (Some 48) 29 ''0'',
       DisText (Some 82) 29 '' n/a'', DisLine 65 63 76 63, DisShow,
       GcCollect, Poll, PrintException (Exc OtherException ''keypad'')]) \<and>
   fst (tick ex_consts ex_pending ex_tick_draw_fail ex_ui None) = Crashed (Exc OtherException ''display'') \<and>
   fst (hsm_show ex_consts ex_tick_draw_fail ex_ui) = Some (Exc OtherException ''display'') \<and>
   quiet_pending ex_pending ClearHsmActive \<and>
   ClearHsmActive \<notin> set (snd (snd (snd (hsmUxInteraction_interact ex_consts ex_pending
       [ex_tick_draw_fail] ex_ui None)))) \<and>
   Activate True \<in> set (snd (ApproveHSMPolicy_interact ex_new ex_env6)) \<and>
   (\<exists>ev0. snd (ApproveHSMPolicy_interact ex_new ex_env6) = ev0 @ [Activate True, ResetUx]) \<and>
   fst (hsmUxInteraction_interact ex_consts ex_pending [ex_tick_draw_fail, ex_tick (Inr ''1'')]
          ex_ui None) = Crashed (Exc OtherException ''display'') \<and>
   sleep_raises ex_tick_sleep_fail = Some (Exc OtherException ''sleep'') \<and>
   fst (tick ex_consts ex_pending ex_tick_sleep_fail ex_ui None) =
     Crashed (Exc OtherException ''sleep'') \<and>
   fst (run_loop ex_consts ex_pending [ex_tick_sleep_fail, ex_tick (Inr ''1'')] ex_ui None) =
     Crashed (Exc OtherException ''sleep'') \<and>
   fst (req_interact ex_pending_raise 0 ex_env6) = Some (Exc OtherException ''step'') \<and>
   fst (tick ex_consts ex_pending_raise (ex_tick (Inl (Exc QueueEmpty []))) ex_ui (Some 0)) =
     Crashed (Exc OtherException ''step'')"
proof -
  have sh: "hsm_show ex_consts ex_tick_poll_fail ex_ui =
     (None, ex_ui\<lparr>phase := 1\<rparr>,
      [DisRestore, DisText (Some 11) 29 ''0'', DisText (Some 48) 29 ''0'',
       DisText (Some 82) 29 '' n/a'', DisLine 65 63 76 63, DisShow])"
    by (simp add: loop_defs sample_defs ex_tick_poll_fail_def cylon_def)
  have ph: "poll_and_handle ex_consts ex_tick_poll_fail (digits (ex_ui\<lparr>phase := 1\<rparr>)) =
              (Some (Exc OtherException ''keypad''), [], [Poll])"
    by (simp add: poll_and_handle_def ex_tick_poll_fail_def ex_tick_def ex_ui_def)
  have c: "cls (Exc OtherException ''keypad'') \<noteq> QueueEmpty" by simp
  have cr: "fst (tick ex_consts ex_pending ex_tick_draw_fail ex_ui None) =
              Crashed (Exc OtherException ''display'')"
    by (simp add: loop_defs sample_defs)
  have crun: "fst (hsmUxInteraction_interact ex_consts ex_pending [ex_tick_draw_fail] ex_ui None)
               \<noteq> Exited"
    by (simp add: loop_defs sample_defs)
  have sl: "sleep_raises ex_tick_draw_fail = None"
    by (simp add: sample_defs)
  have q: "quiet_pending ex_pending ClearHsmActive"
    unfolding ex_pending_def by (rule approve_pending_quiet) simp
  have act: "Activate True \<in> set (snd (ApproveHSMPolicy_interact ex_new ex_env6))"
    by (simp add: approve_defs ex_new_def ex_env6_def)
  note t1 = loop_catches_input_errors[of ex_consts ex_tick_poll_fail ex_ui "ex_ui\<lparr>phase := 1\<rparr>"
      "[DisRestore, DisText (Some 11) 29 ''0'', DisText (Some 48) 29 ''0'',
        DisText (Some 82) 29 '' n/a'', DisLine 65 63 76 63, DisShow]"
      "Exc OtherException ''keypad''" "[]" "[Poll]" ex_pending None]
  note t2 = loop_catches_input_errors[of ex_consts ex_tick_draw_fail ex_ui _ _
      "Exc OtherException ''display''" _ _ ex_pending None _ _ _ _ "[ex_tick_draw_fail]" ex_ui None
      True ex_new ex_env6]
  have a1: "tick ex_consts ex_pending ex_tick_poll_fail ex_ui None =
     (Looping, ex_ui\<lparr>phase := 1\<rparr>, None,
      [DisRestore, DisText (Some 11) 29 ''0'', DisText (Some 48) 29 ''0'',
       DisText (Some 82) 29 '' n/a'', DisLine 65 63 76 63, DisShow,
       GcCollect, Poll, PrintException (Exc OtherException ''keypad'')])"
  proof -
    from t1 have "hsm_show ex_consts ex_tick_poll_fail ex_ui =
        (None, ex_ui\<lparr>phase := 1\<rparr>,
         [DisRestore, DisText (Some 11) 29 ''0'', DisText (Some 48) 29 ''0'',
          DisText (Some 82) 29 '' n/a'', DisLine 65 63 76 63, DisShow]) \<and>
       poll_and_handle ex_consts ex_tick_poll_fail (digits (ex_ui\<lparr>phase := 1\<rparr>)) =
         (Some (Exc OtherException ''keypad''), [], [Poll]) \<and>
       cls (Exc OtherException ''keypad'') \<noteq> QueueEmpty \<longrightarrow>
       tick ex_consts ex_pending ex_tick_poll_fail ex_ui None =
         (Looping, (ex_ui\<lparr>phase := 1\<rparr>)\<lparr>digits := []\<rparr>, None,
          [DisRestore, DisText (Some 11) 29 ''0'', DisText (Some 48) 29 ''0'',
           DisText (Some 82) 29 '' n/a'', DisLine 65 63 76 63, DisShow] @
          GcCollect # [Poll] @ [PrintException (Exc OtherException ''keypad'')])"
      by (rule conjunct1)
    with sh ph c have "tick ex_consts ex_pending ex_tick_poll_fail ex_ui None =
         (Looping, (ex_ui\<lparr>phase := 1\<rparr>)\<lparr>digits := []\<rparr>, None,
          [DisRestore, DisText (Some 11) 29 ''0'', DisText (Some 48) 29 ''0'',
           DisText (Some 82) 29 '' n/a'', DisLine 65 63 76 63, DisShow] @
          GcCollect # [Poll] @ [PrintException (Exc OtherException ''keypad'')])"
      by blast
    then show ?thesis by (simp add: ex_ui_def)
  qed
  have a2: "fst (hsm_show ex_consts ex_tick_draw_fail ex_ui) = Some (Exc OtherException ''display'')"
    using t2 cr sl by simp
  have a3: "ClearHsmActive \<notin> set (snd (snd (snd (hsmUxInteraction_interact ex_consts ex_pending
       [ex_tick_draw_fail] ex_ui None))))"
    using t2 q crun by blast
  have a4: "\<exists>ev0. snd (ApproveHSMPolicy_interact ex_new ex_env6) = ev0 @ [Activate True, ResetUx]"
    using t2 act by blast
  have ph': "poll_and_handle ex_consts ex_tick_poll_fail [] = (Some (Exc OtherException ''keypad''), [], [Poll])"
    using ph by (simp add: ex_ui_def)
  have u: "ex_ui\<lparr>digits := [], test_restart := False\<rparr> = ex_ui"
    by (simp add: ex_ui_def)
  note t3 = loop_catches_input_errors[THEN conjunct2, THEN conjunct2, THEN conjunct2,
      THEN conjunct2, THEN conjunct2, THEN conjunct2, THEN conjunct2, THEN conjunct2,
      THEN conjunct2, THEN mp]
  have a5: "fst (hsmUxInteraction_interact ex_consts ex_pending
               [ex_tick_draw_fail, ex_tick (Inr ''1'')] ex_ui None) =
            Crashed (Exc OtherException ''display'')"
  proof (rule t3)
    show "fst (tick ex_consts ex_pending ex_tick_draw_fail
                 (ex_ui\<lparr>digits := [], test_restart := False\<rparr>) None) =
          Crashed (Exc OtherException ''display'')"
      using cr u by simp
  qed
  have shq: "hsm_show ex_consts (ex_tick (Inl (Exc QueueEmpty []))) ex_ui =
     (None, ex_ui\<lparr>phase := 1\<rparr>,
      [DisRestore, DisText (Some 11) 29 ''0'', DisText (Some 48) 29 ''0'',
       DisText (Some 82) 29 '' n/a'', DisLine 65 63 76 63, DisShow])"
    by (simp add: loop_defs sample_defs cylon_def)
  have shs: "hsm_show ex_consts ex_tick_sleep_fail ex_ui =
     (None, ex_ui\<lparr>phase := 1\<rparr>,
      [DisRestore, DisText (Some 11) 29 ''0'', DisText (Some 48) 29 ''0'',
       DisText (Some 82) 29 '' n/a'', DisLine 65 63 76 63, DisShow])"
    by (simp add: loop_defs sample_defs ex_tick_sleep_fail_def cylon_def)
  have phs: "poll_and_handle ex_consts ex_tick_sleep_fail (digits (ex_ui\<lparr>phase := 1\<rparr>)) =
               (Some (Exc QueueEmpty []), [], [Poll])"
    by (simp add: poll_and_handle_def ex_tick_sleep_fail_def ex_tick_def ex_ui_def)
  have phq: "poll_and_handle ex_consts (ex_tick (Inl (Exc QueueEmpty []))) (digits (ex_ui\<lparr>phase := 1\<rparr>)) =
               (Some (Exc QueueEmpty []), [], [Poll])"
    by (simp add: poll_and_handle_def ex_tick_def ex_ui_def)
  have sf: "sleep_raises ex_tick_sleep_fail = Some (Exc OtherException ''sleep'')"
    by (simp add: ex_tick_sleep_fail_def)
  have nr: "\<not> test_restart ex_ui" by (simp add: ex_ui_def)
  note c7 = loop_catches_input_errors[THEN conjunct2, THEN conjunct2, THEN conjunct2,
      THEN conjunct2, THEN conjunct2, THEN conjunct2, THEN conjunct1, THEN mp]
  note c8 = loop_catches_input_errors[THEN conjunct2, THEN conjunct2, THEN conjunct2,
      THEN conjunct2, THEN conjunct2, THEN conjunct2, THEN conjunct2, THEN conjunct1, THEN mp,
      THEN conjunct1]
  note c9 = loop_catches_input_errors[THEN conjunct2, THEN conjunct2, THEN conjunct2,
      THEN conjunct2, THEN conjunct2, THEN conjunct2, THEN conjunct2, THEN conjunct2,
      THEN conjunct1, THEN mp]
  have full: "tick ex_consts ex_pending ex_tick_sleep_fail ex_ui None =
      (Crashed (Exc OtherException ''sleep''), (ex_ui\<lparr>phase := 1\<rparr>)\<lparr>digits := []\<rparr>, None,
       [DisRestore, DisText (Some 11) 29 ''0'', DisText (Some 48) 29 ''0'',
        DisText (Some 82) 29 '' n/a'', DisLine 65 63 76 63, DisShow] @
       GcCollect # [Poll] @ [SleepMs 100])"
  proof (rule c7)
    show "hsm_show ex_consts ex_tick_sleep_fail ex_ui =
            (None, ex_ui\<lparr>phase := 1\<rparr>,
             [DisRestore, DisText (Some 11) 29 ''0'', DisText (Some 48) 29 ''0'',
              DisText (Some 82) 29 '' n/a'', DisLine 65 63 76 63, DisShow]) \<and>
          poll_and_handle ex_consts ex_tick_sleep_fail (digits (ex_ui\<lparr>phase := 1\<rparr>)) =
            (Some (Exc QueueEmpty []), [], [Poll]) \<and>
          cls (Exc QueueEmpty []) = QueueEmpty \<and>
          sleep_raises ex_tick_sleep_fail = Some (Exc OtherException ''sleep'')"
      using shs phs sf by simp
  qed
  have a6: "fst (tick ex_consts ex_pending ex_tick_sleep_fail ex_ui None) =
              Crashed (Exc OtherException ''sleep'')"
    by (simp add: full)
  have a7: "fst (run_loop ex_consts ex_pending [ex_tick_sleep_fail, ex_tick (Inr ''1'')] ex_ui None) =
              Crashed (Exc OtherException ''sleep'')"
  proof (rule c9)
    show "\<not> test_restart ex_ui \<and>
          fst (tick ex_consts ex_pending ex_tick_sleep_fail ex_ui None) =
            Crashed (Exc OtherException ''sleep'')"
      using nr a6 by simp
  qed
  have rq: "fst (req_interact ex_pending_raise 0 ex_env6) = Some (Exc OtherException ''step'')"
       "\<not> req_ux_done ex_pending_raise 0"
       "req_env (ex_tick (Inl (Exc QueueEmpty []))) = ex_env6"
       "sleep_raises (ex_tick (Inl (Exc QueueEmpty []))) = None"
    by (simp_all add: ex_pending_raise_def ex_tick_def)
  have a8: "fst (tick ex_consts ex_pending_raise (ex_tick (Inl (Exc QueueEmpty []))) ex_ui (Some 0)) =
              Crashed (Exc OtherException ''step'')"
  proof (rule c8)
    show "hsm_show ex_consts (ex_tick (Inl (Exc QueueEmpty []))) ex_ui =
            (None, ex_ui\<lparr>phase := 1\<rparr>,
             [DisRestore, DisText (Some 11) 29 ''0'', DisText (Some 48) 29 ''0'',
              DisText (Some 82) 29 '' n/a'', DisLine 65 63 76 63, DisShow]) \<and>
          poll_and_handle ex_consts (ex_tick (Inl (Exc QueueEmpty []))) (digits (ex_ui\<lparr>phase := 1\<rparr>)) =
            (Some (Exc QueueEmpty []), [], [Poll]) \<and>
          cls (Exc QueueEmpty []) = QueueEmpty \<and>
          sleep_raises (ex_tick (Inl (Exc QueueEmpty []))) = None \<and>
          Some 0 = Some 0 \<and> \<not> req_ux_done ex_pending_raise 0 \<and>
          fst (req_interact ex_pending_raise 0 (req_env (ex_tick (Inl (Exc QueueEmpty []))))) =
            Some (Exc OtherException ''step'') \<and>
          cls (Exc OtherException ''step'') \<noteq> AbortInteraction"
      using shq phq rq by simp
  qed
  show ?thesis by (intro conjI sh ph' a1 cr a2 q a3 act a4 a5 sf a6 a7 rq(1) a8)
qed

lemma interact_idle_events:
  assumes i: "idle P slot"
  shows "\<forall>x \<in> set (snd (snd (snd (hsmUxInteraction_interact C P envs s slot)))).
           x \<noteq> ReqInteract \<and> (\<forall>b. x \<noteq> Activate b)"
proof -
  obtain r1 s1 slot1 ev1 where
    rl: "run_loop C P envs (s\<lparr>digits := [], test_restart := False\<rparr>) slot = (r1, s1, slot1, ev1)"
    by (cases "run_loop C P envs (s\<lparr>digits := [], test_restart := False\<rparr>) slot") auto
  have "\<forall>x \<in> set ev1. loop_call x \<and> x \<noteq> ReqInteract"
    using run_loop_idle[OF rl i] by simp
  then have e1: "\<forall>x \<in> set ev1. x \<noteq> ReqInteract \<and> (\<forall>b. x \<noteq> Activate b)"
    by auto
  show ?thesis using e1 by (auto simp: interact_shape[OF rl])
qed

text \<open>
  Claim C7.  For a policy read from the file (\<^verbatim>\<open>new_file\<close> false), explained and accepted
  with \<^verbatim>\<open>y\<close>: the flow ends approved with exactly the calls \<^verbatim>\<open>explain\<close>, one story,
  \<^verbatim>\<open>cleanup\<close>, \<^verbatim>\<open>activate(False)\<close>, \<^verbatim>\<open>the_ux.reset(hsm_ux_obj)\<close>: no random draw and no second
  story.  Afterwards the slot is idle, whether \<^verbatim>\<open>cleanup\<close> emptied it or it still holds the
  finished action (\<^verbatim>\<open>ux_done\<close> is set), and a run of the loop on an idle slot, of any length and
  on any answers, never enters \<^verbatim>\<open>req.interact()\<close> and never calls \<^verbatim>\<open>activate\<close>.
\<close>

theorem persisted_policy_single_accept:
  assumes "\<not> new_file a" and "explain_out env = Inr text" and "story1 env = Inr ''y''"
  shows "ApproveHSMPolicy_interact a env =
           (a\<lparr>refused := False, ux_done := True\<rparr>,
            [Explain, ShowStory (explain_msg text) (Some title) None False,
             Cleanup, Activate False, ResetUx]) \<and>
         idle (approve_pending cl) (Some (fst (ApproveHSMPolicy_interact a env))) \<and>
         idle (approve_pending cl) None \<and>
         (idle (approve_pending cl) slot \<longrightarrow>
            (\<forall>x \<in> set (snd (snd (snd (hsmUxInteraction_interact C (approve_pending cl) envs s slot)))).
               x \<noteq> ReqInteract \<and> (\<forall>b. x \<noteq> Activate b)))"
proof -
  have p1: "ApproveHSMPolicy_interact a env =
           (a\<lparr>refused := False, ux_done := True\<rparr>,
            [Explain, ShowStory (explain_msg text) (Some title) None False,
             Cleanup, Activate False, ResetUx])"
    using assms
    by (simp add: ApproveHSMPolicy_interact_def approve_handler_def approve_try_def
          first_story_def Let_def)
  have p2: "idle (approve_pending cl) (Some (fst (ApproveHSMPolicy_interact a env)))"
    by (simp add: idle_def approve_pending_def interact_ux_done)
  have p3: "idle (approve_pending cl) None"
    by (simp add: idle_def)
  have p4: "idle (approve_pending cl) slot \<longrightarrow>
            (\<forall>x \<in> set (snd (snd (snd (hsmUxInteraction_interact C (approve_pending cl) envs s slot)))).
               x \<noteq> ReqInteract \<and> (\<forall>b. x \<noteq> Activate b))"
    using interact_idle_events[of "approve_pending cl" slot C envs s] by blast
  show ?thesis by (intro conjI p1 p2 p3 p4)
qed

text \<open>A stored policy accepted with \<^verbatim>\<open>y\<close>, then two iterations of the loop.\<close>

theorem persisted_policy_single_accept_witness:
  "\<not> new_file ex_old \<and> explain_out ex_env6 = Inr ''Rules'' \<and> story1 ex_env6 = Inr ''y'' \<and>
   snd (ApproveHSMPolicy_interact ex_old ex_env6) =
     [Explain, ShowStory (explain_msg ''Rules'') (Some title) None False,
      Cleanup, Activate False, ResetUx] \<and>
   idle ex_pending (Some (ex_old\<lparr>refused := False, ux_done := True\<rparr>)) \<and>
   ReqInteract \<notin> set (snd (snd (snd (hsmUxInteraction_interact ex_consts ex_pending
                  [ex_tick (Inl (Exc QueueEmpty [])), ex_tick (Inr ''1'')] ex_ui
                  (Some (ex_old\<lparr>refused := False, ux_done := True\<rparr>)))))) \<and>
   (\<forall>b. Activate b \<notin> set (snd (snd (snd (hsmUxInteraction_interact ex_consts ex_pending
                  [ex_tick (Inl (Exc QueueEmpty [])), ex_tick (Inr ''1'')] ex_ui
                  (Some (ex_old\<lparr>refused := False, ux_done := True\<rparr>)))))))"
proof -
  have h: "\<not> new_file ex_old" "explain_out ex_env6 = Inr ''Rules''" "story1 ex_env6 = Inr ''y''"
    by (simp_all add: ex_old_def ex_new_def ex_env6_def)
  note t = persisted_policy_single_accept[OF h, of "\<lambda>slot. None"
      "Some (ex_old\<lparr>refused := False, ux_done := True\<rparr>)" ex_consts
      "[ex_tick (Inl (Exc QueueEmpty [])), ex_tick (Inr ''1'')]" ex_ui]
  from t have e: "ApproveHSMPolicy_interact ex_old ex_env6 =
      (ex_old\<lparr>refused := False, ux_done := True\<rparr>,
       [Explain, ShowStory (explain_msg ''Rules'') (Some title) None False,
        Cleanup, Activate False, ResetUx])"
    by (rule conjunct1)
  from t have i: "idle ex_pending (Some (fst (ApproveHSMPolicy_interact ex_old ex_env6)))"
    unfolding ex_pending_def by blast
  then have i': "idle ex_pending (Some (ex_old\<lparr>refused := False, ux_done := True\<rparr>))"
    by (simp add: e)
  from t i' have l: "\<forall>x \<in> set (snd (snd (snd (hsmUxInteraction_interact ex_consts ex_pending
                  [ex_tick (Inl (Exc QueueEmpty [])), ex_tick (Inr ''1'')] ex_ui
                  (Some (ex_old\<lparr>refused := False, ux_done := True\<rparr>)))))).
      x \<noteq> ReqInteract \<and> (\<forall>b. x \<noteq> Activate b)"
    unfolding ex_pending_def by blast
  have e': "snd (ApproveHSMPolicy_interact ex_old ex_env6) =
     [Explain, ShowStory (explain_msg ''Rules'') (Some title) None False,
      Cleanup, Activate False, ResetUx]"
    by (simp add: e)
  from l have l1: "ReqInteract \<notin> set (snd (snd (snd (hsmUxInteraction_interact ex_consts ex_pending
                  [ex_tick (Inl (Exc QueueEmpty [])), ex_tick (Inr ''1'')] ex_ui
                  (Some (ex_old\<lparr>refused := False, ux_done := True\<rparr>))))))"
    by blast
  from l have l2: "\<forall>b. Activate b \<notin> set (snd (snd (snd (hsmUxInteraction_interact ex_consts ex_pending
                  [ex_tick (Inl (Exc QueueEmpty [])), ex_tick (Inr ''1'')] ex_ui
                  (Some (ex_old\<lparr>refused := False, ux_done := True\<rparr>))))))"
    by blast
  show ?thesis by (intro conjI h e' i' l1 l2)
qed

lemma parse_policy_fails_iff:
  "(parse_policy D json = Inl exc) =
     ((\<exists>e. loads D json = Inl e) \<and> exc = Exc ValueError ''JSON parse fail'' \<or>
      (\<exists>js. loads D json = Inr js \<and> policy_load D js = Inl exc))"
  by (auto simp: parse_policy_def split: sum.splits)

lemma no_policy_iff:
  "(fst (start_hsm_approval D env slot sf_len usb_mode startup_mode) = Inl NoExistingPolicy) =
      (sf_len = 0 \<and> (\<exists>e. file_read env = Inl e))"
  by (auto simp: start_hsm_approval_def read_policy_text_def Let_def
        split: sum.splits prod.splits if_splits)

lemma loader_malformed:
  assumes "read_policy_text env sf_len = Inr (json, is_new)" and "parse_policy D json = Inl exc"
  shows "start_hsm_approval D env slot sf_len usb_mode startup_mode =
        (if usb_mode then (Inl (PolicyInvalid (invalid_msg D exc)), cleanup D slot, [Cleanup])
         else (case fail_story env of Inl e \<Rightarrow> Inl (Propagated e) | Inr ch \<Rightarrow> Inr None,
               cleanup D slot,
               [Cleanup, Print (invalid_msg D exc),
                ShowStory (''Cannot start HSM.'' @ nl @ nl @ invalid_msg D exc) None None False]))"
  using assms
  by (simp add: start_hsm_approval_def Let_def split: sum.splits)

lemma loader_success:
  assumes "fst (start_hsm_approval D env slot sf_len usb_mode startup_mode) = Inr (Some ar)"
  shows "new_file ar = (sf_len \<noteq> 0) \<and>
      fst (snd (start_hsm_approval D env slot sf_len usb_mode startup_mode)) = Some ar \<and>
      (\<exists>json pol. (if sf_len \<noteq> 0 then sf_read env else file_read env) = Inr json \<and>
         parse_policy D json = Inr pol \<and>
         ar = ApproveHSMPolicy_init (action_base D) pol (sf_len \<noteq> 0))"
  using assms
  by (auto simp: start_hsm_approval_def read_policy_text_def ApproveHSMPolicy_init_def Let_def
        split: sum.splits prod.splits if_splits)

text \<open>
  Claim C6.  The loader raises \<^verbatim>\<open>ValueError("No existing policy")\<close> exactly when \<^verbatim>\<open>sf_len\<close> is
  0 and reading the policy file raises; that exception differs from the one raised for an
  invalid policy.  The text is malformed when \<^verbatim>\<open>ujson.loads\<close> or \<^verbatim>\<open>policy.load\<close> raises; then
  the diagnostic \<^verbatim>\<open>"HSM Policy invalid: ..."\<close> is raised (USB) or printed and shown in a story
  after which \<^verbatim>\<open>None\<close> is returned, and the slot is left as \<^verbatim>\<open>cleanup\<close> left it: no action is
  built or installed.  When an action is returned it is the one installed in the slot, built
  from the parsed policy, and its \<^verbatim>\<open>new_file\<close> is true exactly when the text came from the
  transfer buffer (\<^verbatim>\<open>sf_len\<close> not 0) and not from the file.
\<close>

theorem loader_outcomes:
  "((fst (start_hsm_approval D env slot sf_len usb_mode startup_mode) = Inl NoExistingPolicy) =
      (sf_len = 0 \<and> (\<exists>e. file_read env = Inl e))) \<and>
   loader_exn NoExistingPolicy \<noteq> loader_exn (PolicyInvalid (invalid_msg D exc)) \<and>
   ((parse_policy D json = Inl exc) =
     ((\<exists>e. loads D json = Inl e) \<and> exc = Exc ValueError ''JSON parse fail'' \<or>
      (\<exists>js. loads D json = Inr js \<and> policy_load D js = Inl exc))) \<and>
   (read_policy_text env sf_len = Inr (json, is_new) \<and> parse_policy D json = Inl exc \<longrightarrow>
      start_hsm_approval D env slot sf_len usb_mode startup_mode =
        (if usb_mode then (Inl (PolicyInvalid (invalid_msg D exc)), cleanup D slot, [Cleanup])
         else (case fail_story env of Inl e \<Rightarrow> Inl (Propagated e) | Inr ch \<Rightarrow> Inr None,
               cleanup D slot,
               [Cleanup, Print (invalid_msg D exc),
                ShowStory (''Cannot start HSM.'' @ nl @ nl @ invalid_msg D exc) None None False]))) \<and>
   (\<forall>ar. fst (start_hsm_approval D env slot sf_len usb_mode startup_mode) = Inr (Some ar) \<longrightarrow>
      new_file ar = (sf_len \<noteq> 0) \<and>
      fst (snd (start_hsm_approval D env slot sf_len usb_mode startup_mode)) = Some ar \<and>
      (\<exists>json pol. (if sf_len \<noteq> 0 then sf_read env else file_read env) = Inr json \<and>
         parse_policy D json = Inr pol \<and>
         ar = ApproveHSMPolicy_init (action_base D) pol (sf_len \<noteq> 0)))"
proof -
  have p2: "loader_exn NoExistingPolicy \<noteq> loader_exn (PolicyInvalid (invalid_msg D exc))"
    by (simp add: invalid_msg_def)
  have p4: "read_policy_text env sf_len = Inr (json, is_new) \<and> parse_policy D json = Inl exc \<longrightarrow>
      start_hsm_approval D env slot sf_len usb_mode startup_mode =
        (if usb_mode then (Inl (PolicyInvalid (invalid_msg D exc)), cleanup D slot, [Cleanup])
         else (case fail_story env of Inl e \<Rightarrow> Inl (Propagated e) | Inr ch \<Rightarrow> Inr None,
               cleanup D slot,
               [Cleanup, Print (invalid_msg D exc),
                ShowStory (''Cannot start HSM.'' @ nl @ nl @ invalid_msg D exc) None None False]))"
    using loader_malformed[of env sf_len json is_new D exc slot usb_mode startup_mode] by blast
  have p5: "\<forall>ar. fst (start_hsm_approval D env slot sf_len usb_mode startup_mode) = Inr (Some ar) \<longrightarrow>
      new_file ar = (sf_len \<noteq> 0) \<and>
      fst (snd (start_hsm_approval D env slot sf_len usb_mode startup_mode)) = Some ar \<and>
      (\<exists>json pol. (if sf_len \<noteq> 0 then sf_read env else file_read env) = Inr json \<and>
         parse_policy D json = Inr pol \<and>
         ar = ApproveHSMPolicy_init (action_base D) pol (sf_len \<noteq> 0))"
    using loader_success[of D env slot sf_len usb_mode startup_mode] by blast
  show ?thesis by (intro conjI no_policy_iff p2 parse_policy_fails_iff p4 p5)
qed

text \<open>A malformed text from the transfer buffer, in menu and in USB mode; a well-formed
  one; and no buffer with no file.\<close>

theorem loader_outcomes_witness:
  "read_policy_text (ex_loader_env ''{'') 2 = Inr (''{'', True) \<and>
   parse_policy ex_deps ''{'' = Inl (Exc ValueError ''JSON parse fail'') \<and>
   start_hsm_approval ex_deps (ex_loader_env ''{'') (Some ex_new) 2 False False =
     (Inr None, None,
      [Cleanup, Print ''HSM Policy invalid: hsm_ux.py:109: JSON parse fail'',
       ShowStory (''Cannot start HSM.'' @ nl @ nl @
                  ''HSM Policy invalid: hsm_ux.py:109: JSON parse fail'') None None False]) \<and>
   fst (start_hsm_approval ex_deps (ex_loader_env ''{'') (Some ex_new) 2 True False) =
     Inl (PolicyInvalid ''HSM Policy invalid: hsm_ux.py:109: JSON parse fail'') \<and>
   fst (start_hsm_approval ex_deps (ex_loader_env ''{}'') None 2 True False) =
     Inr (Some (ex_new\<lparr>policy := ''rules''\<rparr>)) \<and>
   new_file (ex_new\<lparr>policy := ''rules''\<rparr>) \<and>
   fst (start_hsm_approval ex_deps (ex_loader_env ''{}'') None 0 True False) = Inl NoExistingPolicy"
proof -
  have r: "read_policy_text (ex_loader_env ''{'') 2 = Inr (''{'', True)"
    by (simp add: read_policy_text_def ex_loader_env_def)
  have p: "parse_policy ex_deps ''{'' = Inl (Exc ValueError ''JSON parse fail'')"
    by (simp add: parse_policy_def ex_deps_def)
  have m: "invalid_msg ex_deps (Exc ValueError ''JSON parse fail'') =
             ''HSM Policy invalid: hsm_ux.py:109: JSON parse fail''"
    by (simp add: invalid_msg_def ex_deps_def)
  have c: "cleanup ex_deps (Some ex_new) = None" "fail_story (ex_loader_env ''{'') = Inr ''y''"
    by (simp_all add: ex_deps_def ex_loader_env_def)
  have ok: "fst (start_hsm_approval ex_deps (ex_loader_env ''{}'') None 2 True False) =
     Inr (Some (ex_new\<lparr>policy := ''rules''\<rparr>))"
    by (simp add: start_hsm_approval_def read_policy_text_def parse_policy_def
          ApproveHSMPolicy_init_def ex_deps_def ex_loader_env_def ex_new_def Let_def)
  have f: "file_read (ex_loader_env ''{}'') = Inl (Exc OtherException ''ENOENT'')"
    by (simp add: ex_loader_env_def)
  note t1 = loader_outcomes[of ex_deps "ex_loader_env ''{''" "Some ex_new" 2 False False
      "Exc ValueError ''JSON parse fail''" "''{''" True]
  note t2 = loader_outcomes[of ex_deps "ex_loader_env ''{''" "Some ex_new" 2 True False
      "Exc ValueError ''JSON parse fail''" "''{''" True]
  note t3 = loader_outcomes[of ex_deps "ex_loader_env ''{}''" None 2 True False]
  note t4 = loader_outcomes[of ex_deps "ex_loader_env ''{}''" None 0 True False]
  have a1: "start_hsm_approval ex_deps (ex_loader_env ''{'') (Some ex_new) 2 False False =
     (Inr None, None,
      [Cleanup, Print ''HSM Policy invalid: hsm_ux.py:109: JSON parse fail'',
       ShowStory (''Cannot start HSM.'' @ nl @ nl @
                  ''HSM Policy invalid: hsm_ux.py:109: JSON parse fail'') None None False])"
    using t1 r p m c by simp
  have a2: "fst (start_hsm_approval ex_deps (ex_loader_env ''{'') (Some ex_new) 2 True False) =
     Inl (PolicyInvalid ''HSM Policy invalid: hsm_ux.py:109: JSON parse fail'')"
    using t2 r p m c by simp
  have a3: "new_file (ex_new\<lparr>policy := ''rules''\<rparr>)"
    using t3 ok by simp
  have a4: "fst (start_hsm_approval ex_deps (ex_loader_env ''{}'') None 0 True False) = Inl NoExistingPolicy"
    using t4 f by simp
  show ?thesis by (intro conjI r p a1 a2 ok a3 a4)
qed


end
